theory Spec2Isabelle
  imports Main
begin

section \<open>JavaScript values and strings\<close>

text \<open>
  The backend is TypeScript on Node. The parts of the JavaScript runtime that the source
  relies on are modelled here: strings are ASCII character lists, numbers are the
  integer-valued doubles together with the two infinities and NaN (exact for magnitudes
  below \<open>2^53\<close>), and a request body value is a JSON scalar. A missing property
  (\<open>undefined\<close>) is \<open>None\<close> of an option.
\<close>

datatype jsnum = Fin int | PosInf | NegInf | NaN

datatype jsval = JNull | JBool bool | JNum int | JStr string

type_synonym jsobject = "(string \<times> jsval) list"

text \<open>\<open>obj[key]\<close>: the property, or \<open>undefined\<close>.\<close>

definition getprop :: "jsobject \<Rightarrow> string \<Rightarrow> jsval option" where
  "getprop obj key = map_of obj key"

fun startsWith :: "string \<Rightarrow> string \<Rightarrow> bool" where
  "startsWith s [] = True"
| "startsWith [] (c # t) = False"
| "startsWith (a # s) (c # t) = (a = c \<and> startsWith s t)"

text \<open>\<open>s.includes(t)\<close>\<close>

fun str_includes :: "string \<Rightarrow> string \<Rightarrow> bool" where
  "str_includes [] t = (t = [])"
| "str_includes (a # s) t = (startsWith (a # s) t \<or> str_includes s t)"

definition toLowerCase_char :: "char \<Rightarrow> char" where
  "toLowerCase_char c =
     (let n = (of_char c :: nat) in if 65 \<le> n \<and> n \<le> 90 then char_of (n + 32) else c)"

definition toUpperCase_char :: "char \<Rightarrow> char" where
  "toUpperCase_char c =
     (let n = (of_char c :: nat) in if 97 \<le> n \<and> n \<le> 122 then char_of (n - 32) else c)"

definition toLowerCase :: "string \<Rightarrow> string" where
  "toLowerCase s = map toLowerCase_char s"

definition toUpperCase :: "string \<Rightarrow> string" where
  "toUpperCase s = map toUpperCase_char s"

text \<open>\<open>xs.join(sep)\<close>\<close>

fun join :: "string \<Rightarrow> string list \<Rightarrow> string" where
  "join sep [] = []"
| "join sep [x] = x"
| "join sep (x # y # ys) = x @ sep @ join sep (y # ys)"

text \<open>\<open>s.split(sep)\<close> for a one-character separator.\<close>

fun split_char :: "char \<Rightarrow> string \<Rightarrow> string list" where
  "split_char sep [] = [Nil]"
| "split_char sep (c # s) =
     (if c = sep then [] # split_char sep s
      else (case split_char sep s of
              w # ws \<Rightarrow> (c # w) # ws
            | [] \<Rightarrow> [c # Nil]))"

text \<open>Decimal rendering of a number, as \<open>String(n)\<close> and template literals do.\<close>

definition digit_char :: "nat \<Rightarrow> char" where
  "digit_char d = char_of (48 + d)"

fun show_nat :: "nat \<Rightarrow> string" where
  "show_nat n = (if n < 10 then [digit_char n] else show_nat (n div 10) @ [digit_char (n mod 10)])"

declare show_nat.simps [simp del]

definition show_int :: "int \<Rightarrow> string" where
  "show_int i = (if i < 0 then CHR ''-'' # show_nat (nat (- i)) else show_nat (nat i))"

text \<open>\<open>String(v)\<close>\<close>

fun String_js :: "jsval \<Rightarrow> string" where
  "String_js JNull = ''null''"
| "String_js (JBool b) = (if b then ''true'' else ''false'')"
| "String_js (JNum n) = show_int n"
| "String_js (JStr s) = s"

text \<open>Truthiness, as \<open>&&\<close>, \<open>||\<close> and \<open>if\<close> test it.\<close>

fun truthy :: "jsval option \<Rightarrow> bool" where
  "truthy None = False"
| "truthy (Some JNull) = False"
| "truthy (Some (JBool b)) = b"
| "truthy (Some (JNum n)) = (n \<noteq> 0)"
| "truthy (Some (JStr s)) = (s \<noteq> [])"

subsection \<open>Number arithmetic\<close>

text \<open>
  A JavaScript number is an IEEE 754 double; \<open>Fin n\<close> is the one whose value is the
  integer \<open>n\<close>. The nearest double of an integer, and of a quotient of integers, is
  computed here bit by bit, ties going to the even mantissa as the language has it.
\<close>

fun bit_length :: "int \<Rightarrow> nat" where
  "bit_length n = (if n \<le> 0 then 0 else Suc (bit_length (n div 2)))"

declare bit_length.simps [simp del]

text \<open>The integer nearest to \<open>n / d\<close>, ties to even (for \<open>0 \<le> n\<close> and \<open>0 < d\<close>).\<close>

definition round_half_even :: "int \<Rightarrow> int \<Rightarrow> int" where
  "round_half_even n d =
     (let k = n div d; r = n mod d
      in if d < 2 * r \<or> (2 * r = d \<and> odd k) then k + 1 else k)"

text \<open>
  The double nearest to a natural number: 53 significant bits are kept, and a result of
  \<open>2^1024\<close> or more is Infinity (\<open>None\<close>).
\<close>

definition nat_to_double :: "int \<Rightarrow> int option" where
  "nat_to_double n =
     (let e = bit_length n
      in if e \<le> 53 then Some n
         else (let u = 2 ^ (e - 53); m = round_half_even n u * u
               in if 2 ^ 1024 \<le> m then None else Some m))"

definition js_signed_inf :: "bool \<Rightarrow> jsnum" where
  "js_signed_inf positive = (if positive then PosInf else NegInf)"

definition to_double :: "int \<Rightarrow> jsnum" where
  "to_double i =
     (case nat_to_double \<bar>i\<bar> of
        None \<Rightarrow> js_signed_inf (0 < i)
      | Some m \<Rightarrow> Fin (if i < 0 then - m else m))"

text \<open>Rounding of an exact result.\<close>

fun js_round :: "jsnum \<Rightarrow> jsnum" where
  "js_round (Fin n) = to_double n"
| "js_round x = x"

text \<open>
  Difference, sum and product of integers are exact, which is what the doubles give while
  the result stays within \<open>2^53\<close>; \<open>js_round\<close> is applied where a result can leave
  that range.
\<close>

fun js_minus :: "jsnum \<Rightarrow> jsnum \<Rightarrow> jsnum" where
  "js_minus (Fin a) (Fin b) = Fin (a - b)"
| "js_minus NaN _ = NaN"
| "js_minus _ NaN = NaN"
| "js_minus PosInf PosInf = NaN"
| "js_minus NegInf NegInf = NaN"
| "js_minus PosInf _ = PosInf"
| "js_minus NegInf _ = NegInf"
| "js_minus (Fin a) PosInf = NegInf"
| "js_minus (Fin a) NegInf = PosInf"

fun js_plus :: "jsnum \<Rightarrow> jsnum \<Rightarrow> jsnum" where
  "js_plus (Fin a) (Fin b) = Fin (a + b)"
| "js_plus NaN _ = NaN"
| "js_plus _ NaN = NaN"
| "js_plus PosInf NegInf = NaN"
| "js_plus NegInf PosInf = NaN"
| "js_plus PosInf _ = PosInf"
| "js_plus NegInf _ = NegInf"
| "js_plus (Fin a) PosInf = PosInf"
| "js_plus (Fin a) NegInf = NegInf"

fun js_times :: "jsnum \<Rightarrow> jsnum \<Rightarrow> jsnum" where
  "js_times (Fin a) (Fin b) = Fin (a * b)"
| "js_times NaN _ = NaN"
| "js_times _ NaN = NaN"
| "js_times PosInf PosInf = PosInf"
| "js_times NegInf NegInf = PosInf"
| "js_times PosInf NegInf = NegInf"
| "js_times NegInf PosInf = NegInf"
| "js_times PosInf (Fin b) = (if b = 0 then NaN else js_signed_inf (0 < b))"
| "js_times NegInf (Fin b) = (if b = 0 then NaN else js_signed_inf (b < 0))"
| "js_times (Fin a) PosInf = (if a = 0 then NaN else js_signed_inf (0 < a))"
| "js_times (Fin a) NegInf = (if a = 0 then NaN else js_signed_inf (a < 0))"

text \<open>
  The double nearest to \<open>a / b\<close> for positive integers, as a pair \<open>(k, u)\<close> that stands
  for \<open>k / u\<close>. The quotient is scaled by the power of two that leaves 53 significant bits
  (at most \<open>2^1074\<close>, where the subnormal doubles end) and rounded there. For \<open>b \<le> a\<close>
  the quotient has as many integer bits as \<open>a div b\<close>; for \<open>a < b\<close> it lies in
  \<open>[2^-n, 2^(1-n))\<close> for the least \<open>n\<close> with \<open>b \<le> a * 2^n\<close>.
\<close>

definition rounded_quotient :: "int \<Rightarrow> int \<Rightarrow> int \<times> int" where
  "rounded_quotient a b =
     (if b \<le> a
      then (let e = bit_length (a div b)
            in if 53 \<le> e
               then (round_half_even a (b * 2 ^ (e - 53)) * 2 ^ (e - 53), 1)
               else (round_half_even (a * 2 ^ (53 - e)) b, 2 ^ (53 - e)))
      else (let n = bit_length ((b - 1) div a); u = 2 ^ (min (52 + n) 1074)
            in (round_half_even (a * u) b, u)))"

text \<open>
  \<open>Math.floor(a / b)\<close>. A zero divisor is \<open>+0\<close>: the only one the source can produce is
  \<open>end - start\<close>.
\<close>

fun js_floor_div :: "jsnum \<Rightarrow> jsnum \<Rightarrow> jsnum" where
  "js_floor_div (Fin a) (Fin b) =
     (if b = 0 then (if a = 0 then NaN else js_signed_inf (0 < a))
      else if a = 0 then Fin 0
      else (case rounded_quotient \<bar>a\<bar> \<bar>b\<bar> of
              (k, u) \<Rightarrow>
                if (a < 0) = (b < 0) then Fin (k div u)
                else Fin (- ((k + u - 1) div u))))"
| "js_floor_div NaN _ = NaN"
| "js_floor_div _ NaN = NaN"
| "js_floor_div (Fin a) PosInf = Fin 0"
| "js_floor_div (Fin a) NegInf = Fin 0"
| "js_floor_div PosInf (Fin b) = js_signed_inf (0 \<le> b)"
| "js_floor_div NegInf (Fin b) = js_signed_inf (b < 0)"
| "js_floor_div PosInf PosInf = NaN"
| "js_floor_div PosInf NegInf = NaN"
| "js_floor_div NegInf PosInf = NaN"
| "js_floor_div NegInf NegInf = NaN"

subsection \<open>parseInt\<close>

definition isWhiteSpace :: "char \<Rightarrow> bool" where
  "isWhiteSpace c = ((of_char c :: nat) \<in> {9, 10, 11, 12, 13, 32})"

definition digitValue :: "char \<Rightarrow> nat option" where
  "digitValue c =
     (let n = (of_char c :: nat) in
      if 48 \<le> n \<and> n \<le> 57 then Some (n - 48)
      else if 97 \<le> n \<and> n \<le> 122 then Some (n - 87)
      else if 65 \<le> n \<and> n \<le> 90 then Some (n - 55)
      else None)"

definition isRadixDigit :: "nat \<Rightarrow> char \<Rightarrow> bool" where
  "isRadixDigit R c = (case digitValue c of Some d \<Rightarrow> d < R | None \<Rightarrow> False)"

definition digitsValue :: "nat \<Rightarrow> string \<Rightarrow> int" where
  "digitsValue R Z =
     foldl (\<lambda>acc c. acc * int R + (case digitValue c of Some d \<Rightarrow> int d | None \<Rightarrow> 0)) 0 Z"

text \<open>
  \<open>parseInt(s)\<close> with no radix argument: leading white space is skipped, one sign is
  read, a \<open>0x\<close> prefix selects radix 16, and the longest run of digits is read; the
  result is the double nearest to that integer, Infinity when it is out of range, and NaN
  with no digit.
\<close>

definition parseInt :: "string \<Rightarrow> jsnum" where
  "parseInt inputString =
     (let S = dropWhile isWhiteSpace inputString;
          sign = (if startsWith S ''-'' then - 1 else 1 :: int);
          S1 = (if startsWith S ''+'' \<or> startsWith S ''-'' then tl S else S);
          hex = (startsWith S1 ''0x'' \<or> startsWith S1 ''0X'');
          R = (if hex then 16 else 10);
          S2 = (if hex then drop 2 S1 else S1);
          Z = takeWhile (isRadixDigit R) S2
      in if Z = [] then NaN else to_double (sign * digitsValue R Z))"

text \<open>
  A query parameter that is absent is \<open>undefined\<close>; \<open>parseInt(undefined)\<close> reads
  the string \<open>undefined\<close> and is NaN.
\<close>

definition parseInt_param :: "string option \<Rightarrow> jsnum" where
  "parseInt_param v = (case v of None \<Rightarrow> NaN | Some s \<Rightarrow> parseInt s)"

text \<open>\<open>parseInt(x) || d\<close>: NaN and 0 are falsy.\<close>

definition or_default :: "jsnum \<Rightarrow> int \<Rightarrow> jsnum" where
  "or_default v d = (if v = NaN \<or> v = Fin 0 then Fin d else v)"

section \<open>HTTP surface: pagination dialects\<close>

text \<open>
  \<open>req.query\<close> with string values. \<open>GenericController.list\<close>, lines 45 to 62, chooses
  among three dialects.
\<close>

type_synonym query = "(string \<times> string) list"

definition qparam :: "query \<Rightarrow> string \<Rightarrow> string option" where
  "qparam q k = map_of q k"

definition truthy_param :: "string option \<Rightarrow> bool" where
  "truthy_param v = (case v of None \<Rightarrow> False | Some s \<Rightarrow> s \<noteq> [])"

datatype dialect = CurrentPageSize | StartEnd | PagePerPage

definition list_dialect :: "query \<Rightarrow> dialect" where
  "list_dialect q =
     (if truthy_param (qparam q ''current'') \<and> truthy_param (qparam q ''pageSize'')
      then CurrentPageSize
      else if qparam q ''_start'' \<noteq> None \<and> qparam q ''_end'' \<noteq> None then StartEnd
      else PagePerPage)"

text \<open>The page and the limit handed to the record service.\<close>

definition list_pagination :: "query \<Rightarrow> jsnum \<times> jsnum" where
  "list_pagination q =
     (case list_dialect q of
        CurrentPageSize \<Rightarrow>
          (or_default (parseInt_param (qparam q ''current'')) 1,
           or_default (parseInt_param (qparam q ''pageSize'')) 30)
      | StartEnd \<Rightarrow>
          (let start = or_default (parseInt_param (qparam q ''_start'')) 0;
               end' = or_default (parseInt_param (qparam q ''_end'')) 30;
               limit = js_round (js_minus end' start);
               page = js_round (js_plus (js_floor_div start limit) (Fin 1))
           in (page, limit))
      | PagePerPage \<Rightarrow>
          (or_default (parseInt_param (qparam q ''page'')) 1,
           or_default (parseInt_param (qparam q ''per_page'')) 30))"

text \<open>\<open>GenericService.list\<close>, line 10: \<open>offset = (page - 1) * limit\<close>.\<close>

definition list_offset :: "jsnum \<Rightarrow> jsnum \<Rightarrow> jsnum" where
  "list_offset page limit = js_times (js_minus page (Fin 1)) limit"

section \<open>Errors\<close>

text \<open>
  Every failure of the source is a plain \<open>Error\<close> carrying a message; the constructors
  name the \<open>throw\<close> sites. \<open>DriverError\<close> is an error raised by the database driver
  (or by the query builder in front of it), \<open>SyntaxError\<close> one raised by \<open>JSON.parse\<close>.
\<close>

datatype error =
    InvalidTable
  | TableDoesNotExist string
  | ColumnRequired string
  | ExceedsMaxLength string nat
  | AlreadyExists string jsval
  | SyntaxError string
  | DriverError string

fun message :: "error \<Rightarrow> string" where
  "message InvalidTable = ''Invalid table''"
| "message (TableDoesNotExist t) = ''Table '' @ [CHR 39] @ t @ [CHR 39] @ '' does not exist''"
| "message (ColumnRequired c) = ''Column '' @ [CHR 39] @ c @ [CHR 39] @ '' is required''"
| "message (ExceedsMaxLength c n) =
     ''Column '' @ [CHR 39] @ c @ [CHR 39] @ '' exceeds max length of '' @ show_nat n"
| "message (AlreadyExists c v) =
     ''Record with '' @ c @ '': '' @ [CHR 39] @ String_js v @ [CHR 39] @ '' already exists''"
| "message (SyntaxError m) = m"
| "message (DriverError m) = m"


fun is_conflict_error :: "error \<Rightarrow> bool" where
  "is_conflict_error (AlreadyExists c v) = True"
| "is_conflict_error _ = False"


fun is_driver_error :: "error \<Rightarrow> bool" where
  "is_driver_error (DriverError m) = True"
| "is_driver_error _ = False"

section \<open>The database and the process state\<close>

text \<open>A row of \<open>INFORMATION_SCHEMA.COLUMNS\<close>, under the aliases of \<open>columnsQuery\<close>.\<close>

record raw_column =
  rc_name :: string
  rc_type :: string
  rc_isNullable :: string
  rc_key :: string
  rc_extra :: string
  rc_maxLength :: "nat option"

record column_descriptor =
  col_name :: string
  col_type :: string
  col_nullable :: bool
  col_maxLength :: "nat option"
  col_isPrimaryKey :: bool
  col_isAutoIncrement :: bool
  col_widget :: string
  col_label :: string

record table_metadata =
  md_table :: string
  md_label :: string
  md_primaryKey :: string
  md_columns :: "column_descriptor list"
  md_relations :: "string list"

text \<open>
  A JSON column of \<open>table_configurations\<close> as the driver returns it: SQL NULL, an array
  already parsed, or a string still to be parsed.
\<close>

datatype json_column = JsonNull | JsonArray "string list" | JsonText string

record config_row =
  cfg_id :: nat
  cfg_table_name :: string
  cfg_column_order :: json_column
  cfg_unique_constraints :: json_column
  cfg_sortable_columns :: json_column
  cfg_searchable_columns :: json_column
  cfg_filterable_columns :: json_column
  cfg_updated_at :: nat
  cfg_deleted_at :: "nat option"

text \<open>The statements the source sends to the driver, by the place that sends them.\<close>

datatype stmt =
    CheckTable string
  | DescribeColumns string
  | SelectPage string
  | CountAll string
  | SelectById string
  | ConfigUnique string
  | ConfigSearchable string
  | CountDuplicates string string
  | InsertRow string
  | UpdateRow string
  | DeleteRow string
  | ConfigList
  | ConfigGet string
  | ConfigExists string
  | ConfigUpdate string
  | ConfigInsert string
  | ConfigSoftDelete string

text \<open>
  The world: the catalog and the rows of the configured schema, the rows of
  \<open>table_configurations\<close>, the database clock, the driver's failures (\<open>driver_fault w s\<close>
  is the message of the error the driver raises for statement \<open>s\<close>, if it raises one),
  and the module variable \<open>metadataCache\<close> of \<open>introspection.ts\<close>, the dictionary
  that its type \<open>Record<string, any>\<close> declares: a table name maps to what was stored
  under it.
\<close>

record world =
  catalog :: "string \<Rightarrow> raw_column list option"
  contents :: "string \<Rightarrow> jsobject list"
  table_configurations :: "config_row list"
  clock :: nat
  driver_fault :: "stmt \<Rightarrow> string option"
  metadataCache :: "string \<Rightarrow> table_metadata option"

text \<open>\<open>await sequelize.query(...)\<close>: the driver's error, or the statement's result.\<close>

definition run_stmt :: "world \<Rightarrow> stmt \<Rightarrow> 'a \<Rightarrow> error + 'a" where
  "run_stmt w s result = (case driver_fault w s of Some m \<Rightarrow> Inl (DriverError m) | None \<Rightarrow> Inr result)"

section \<open>Schema introspector (\<open>utility/introspection.ts\<close>)\<close>


definition mapTypeToWidget :: "string \<Rightarrow> string" where
  "mapTypeToWidget dataType =
     (let type = toLowerCase dataType in
      if str_includes type ''tinyint'' \<or> str_includes type ''boolean'' then ''switch''
      else if str_includes type ''int'' \<or> str_includes type ''decimal''
              \<or> str_includes type ''float'' \<or> str_includes type ''double'' then ''number''
      else if str_includes type ''text'' \<or> str_includes type ''json'' then ''textarea''
      else if str_includes type ''date'' \<or> str_includes type ''timestamp''
              \<or> str_includes type ''time'' then ''date''
      else ''text'')"

definition capitalize :: "string \<Rightarrow> string" where
  "capitalize word = (case word of [] \<Rightarrow> [] | c # cs \<Rightarrow> toUpperCase_char c # cs)"

definition formatLabel :: "string \<Rightarrow> string" where
  "formatLabel name = join '' '' (map capitalize (split_char CHR ''_'' name))"

definition checkTableExists :: "world \<Rightarrow> string \<Rightarrow> error + bool" where
  "checkTableExists w tableName = run_stmt w (CheckTable tableName) (catalog w tableName \<noteq> None)"

text \<open>Lines 70 to 75: the first column whose key is \<open>PRI\<close>, else the literal \<open>id\<close>.\<close>

definition detect_primaryKey :: "raw_column list \<Rightarrow> string" where
  "detect_primaryKey columnsRaw =
     (case find (\<lambda>col. rc_key col = ''PRI'') columnsRaw of
        Some pkColumn \<Rightarrow> rc_name pkColumn
      | None \<Rightarrow> ''id'')"

definition describe_column :: "raw_column \<Rightarrow> column_descriptor" where
  "describe_column col =
     \<lparr>col_name = rc_name col,
      col_type = rc_type col,
      col_nullable = (rc_isNullable col = ''YES''),
      col_maxLength = rc_maxLength col,
      col_isPrimaryKey = (rc_key col = ''PRI''),
      col_isAutoIncrement = str_includes (rc_extra col) ''auto_increment'',
      col_widget = mapTypeToWidget (rc_type col),
      col_label = formatLabel (rc_name col)\<rparr>"

definition build_metadata :: "string \<Rightarrow> raw_column list \<Rightarrow> table_metadata" where
  "build_metadata tableName columnsRaw =
     \<lparr>md_table = tableName,
      md_label = formatLabel tableName,
      md_primaryKey = detect_primaryKey columnsRaw,
      md_columns = map describe_column columnsRaw,
      md_relations = []\<rparr>"

text \<open>
  \<open>getTableMetadata\<close>: a cached entry is returned at once; otherwise the table must
  exist, its columns are read, and the metadata is stored in the cache.
\<close>

definition getTableMetadata :: "world \<Rightarrow> string \<Rightarrow> (error + table_metadata) \<times> world" where
  "getTableMetadata w tableName =
     (case metadataCache w tableName of
        Some cached \<Rightarrow> (Inr cached, w)
      | None \<Rightarrow>
          (case checkTableExists w tableName of
             Inl e \<Rightarrow> (Inl e, w)
           | Inr exists \<Rightarrow>
               if \<not> exists then (Inl (TableDoesNotExist tableName), w)
               else (case run_stmt w (DescribeColumns tableName)
                            (case catalog w tableName of Some cols \<Rightarrow> cols | None \<Rightarrow> []) of
                       Inl e \<Rightarrow> (Inl e, w)
                     | Inr columnsRaw \<Rightarrow>
                         (let metadata = build_metadata tableName columnsRaw
                          in (Inr metadata,
                              w\<lparr>metadataCache := (metadataCache w)(tableName \<mapsto> metadata)\<rparr>)))))"

section \<open>The SQL engine\<close>

text \<open>
  The engine is the external collaborator behind \<open>sequelize.query\<close>. Its model compares
  a number with a string numerically and two strings exactly (a binary collation), reads
  \<open>LIKE '%q%'\<close> as containment of \<open>q\<close>, rejects a \<open>LIMIT\<close> or \<open>OFFSET\<close> that is
  not a non-negative integer, and cannot bind an object as a value. Every other failure
  (an unknown column, a lost connection, a violated constraint) comes from
  \<open>driver_fault\<close>.
\<close>

datatype fval = FUndefined | FStr string | FSearch "string list" string

type_synonym filters = "(string \<times> fval) list"

datatype clause = Equals string fval | AnyLike "string list" string

definition column_value :: "jsobject \<Rightarrow> string \<Rightarrow> jsval" where
  "column_value row c = (case getprop row c of Some v \<Rightarrow> v | None \<Rightarrow> JNull)"

definition sql_cast_int :: "string \<Rightarrow> int" where
  "sql_cast_int s =
     (let S = dropWhile isWhiteSpace s;
          negative = startsWith S ''-'';
          S1 = (if startsWith S ''+'' \<or> negative then tl S else S);
          Z = takeWhile (isRadixDigit 10) S1
      in (if negative then - 1 else 1) * digitsValue 10 Z)"

fun sql_int :: "jsval \<Rightarrow> int" where
  "sql_int JNull = 0"
| "sql_int (JBool b) = (if b then 1 else 0)"
| "sql_int (JNum n) = n"
| "sql_int (JStr s) = sql_cast_int s"

fun sql_text :: "jsval \<Rightarrow> string" where
  "sql_text JNull = []"
| "sql_text (JBool b) = (if b then ''1'' else ''0'')"
| "sql_text (JNum n) = show_int n"
| "sql_text (JStr s) = s"

fun sql_eq :: "jsval \<Rightarrow> jsval \<Rightarrow> bool" where
  "sql_eq JNull b = False"
| "sql_eq a JNull = False"
| "sql_eq (JStr s) (JStr t) = (s = t)"
| "sql_eq a b = (sql_int a = sql_int b)"

definition sql_like :: "jsval \<Rightarrow> string \<Rightarrow> bool" where
  "sql_like v q = (v \<noteq> JNull \<and> str_includes (sql_text v) q)"

fun str_le :: "string \<Rightarrow> string \<Rightarrow> bool" where
  "str_le [] t = True"
| "str_le (a # s) [] = False"
| "str_le (a # s) (b # t) = ((of_char a :: nat) < of_char b \<or> (a = b \<and> str_le s t))"

fun sql_le :: "jsval \<Rightarrow> jsval \<Rightarrow> bool" where
  "sql_le JNull b = True"
| "sql_le a JNull = False"
| "sql_le (JStr s) (JStr t) = str_le s t"
| "sql_le a b = (sql_int a \<le> sql_int b)"

fun insert_row :: "(jsobject \<Rightarrow> jsobject \<Rightarrow> bool) \<Rightarrow> jsobject \<Rightarrow> jsobject list \<Rightarrow> jsobject list" where
  "insert_row le r [] = [r]"
| "insert_row le r (x # xs) = (if le r x then r # x # xs else x # insert_row le r xs)"

text \<open>\<open>ORDER BY column ASC|DESC\<close>; with no \<open>ORDER BY\<close> the rows come in stored order.\<close>

definition order_rows :: "(string \<times> string) option \<Rightarrow> jsobject list \<Rightarrow> jsobject list" where
  "order_rows ord rows =
     (case ord of
        None \<Rightarrow> rows
      | Some (column, direction) \<Rightarrow>
          foldr (insert_row (\<lambda>r x.
                   if direction = ''DESC'' then sql_le (column_value x column) (column_value r column)
                   else sql_le (column_value r column) (column_value x column))) rows [])"

fun bindable :: "clause \<Rightarrow> bool" where
  "bindable (Equals column (FSearch columns q)) = False"
| "bindable _ = True"

fun row_matches :: "jsobject \<Rightarrow> clause \<Rightarrow> bool" where
  "row_matches row (Equals column (FStr s)) = sql_eq (column_value row column) (JStr s)"
| "row_matches row (Equals column v) = False"
| "row_matches row (AnyLike columns q) = list_ex (\<lambda>c. sql_like (column_value row c) q) columns"

definition matching_rows :: "world \<Rightarrow> string \<Rightarrow> clause list \<Rightarrow> jsobject list" where
  "matching_rows w table clauses = filter (\<lambda>row. list_all (row_matches row) clauses) (contents w table)"

definition sql_syntax_error :: string where
  "sql_syntax_error = ''You have an error in your SQL syntax''"

text \<open>\<open>SELECT * FROM t WHERE ... ORDER BY ... LIMIT :limit OFFSET :offset\<close>\<close>

definition engine_select ::
  "world \<Rightarrow> string \<Rightarrow> clause list \<Rightarrow> (string \<times> string) option \<Rightarrow> jsnum \<Rightarrow> jsnum \<Rightarrow> error + jsobject list" where
  "engine_select w table clauses ord limit offset =
     (case driver_fault w (SelectPage table) of
        Some m \<Rightarrow> Inl (DriverError m)
      | None \<Rightarrow>
          if \<not> list_all bindable clauses then Inl (DriverError ''Invalid value'')
          else (case (limit, offset) of
                  (Fin l, Fin off) \<Rightarrow>
                    if 0 \<le> l \<and> 0 \<le> off
                    then Inr (take (nat l) (drop (nat off) (order_rows ord (matching_rows w table clauses))))
                    else Inl (DriverError sql_syntax_error)
                | _ \<Rightarrow> Inl (DriverError sql_syntax_error)))"

text \<open>\<open>SELECT COUNT(*) as total FROM t WHERE ...\<close>\<close>

definition engine_count :: "world \<Rightarrow> string \<Rightarrow> clause list \<Rightarrow> error + nat" where
  "engine_count w table clauses =
     (case driver_fault w (CountAll table) of
        Some m \<Rightarrow> Inl (DriverError m)
      | None \<Rightarrow>
          if \<not> list_all bindable clauses then Inl (DriverError ''Invalid value'')
          else Inr (length (matching_rows w table clauses)))"

text \<open>
  \<open>SELECT COUNT(*) as count FROM t WHERE column = :value\<close>, with \<open>AND pk != :id\<close> when
  a row is excluded.
\<close>

definition duplicates :: "world \<Rightarrow> string \<Rightarrow> string \<Rightarrow> jsval \<Rightarrow> (string \<times> jsval) option \<Rightarrow> jsobject list" where
  "duplicates w table column v excluded =
     filter (\<lambda>row. sql_eq (column_value row column) v
                   \<and> (case excluded of
                        None \<Rightarrow> True
                      | Some (pk, rid) \<Rightarrow>
                          column_value row pk \<noteq> JNull \<and> rid \<noteq> JNull \<and> \<not> sql_eq (column_value row pk) rid))
       (contents w table)"

definition engine_count_duplicates ::
  "world \<Rightarrow> string \<Rightarrow> string \<Rightarrow> jsval \<Rightarrow> (string \<times> jsval) option \<Rightarrow> error + nat" where
  "engine_count_duplicates w table column v excluded =
     run_stmt w (CountDuplicates table column) (length (duplicates w table column v excluded))"

text \<open>\<open>SELECT * FROM t WHERE pk = :id\<close>\<close>

definition engine_select_by_id :: "world \<Rightarrow> string \<Rightarrow> string \<Rightarrow> jsval \<Rightarrow> error + jsobject list" where
  "engine_select_by_id w table pk rid =
     run_stmt w (SelectById table) (filter (\<lambda>row. sql_eq (column_value row pk) rid) (contents w table))"

text \<open>\<open>obj[key] = v\<close> and \<open>Object.assign(obj, src)\<close> on objects kept in insertion order.\<close>

fun obj_set :: "(string \<times> 'a) list \<Rightarrow> string \<Rightarrow> 'a \<Rightarrow> (string \<times> 'a) list" where
  "obj_set [] key v = [(key, v)]"
| "obj_set ((k, x) # obj) key v = (if k = key then (k, v) # obj else (k, x) # obj_set obj key v)"

definition obj_assign :: "(string \<times> 'a) list \<Rightarrow> (string \<times> 'a) list \<Rightarrow> (string \<times> 'a) list" where
  "obj_assign obj src = foldl (\<lambda>acc (k, v). obj_set acc k v) obj src"

definition auto_increment_column :: "world \<Rightarrow> string \<Rightarrow> string option" where
  "auto_increment_column w table =
     (case catalog w table of
        None \<Rightarrow> None
      | Some cols \<Rightarrow> map_option rc_name (find (\<lambda>col. str_includes (rc_extra col) ''auto_increment'') cols))"

definition next_auto_increment :: "jsobject list \<Rightarrow> string \<Rightarrow> int" where
  "next_auto_increment rows column =
     foldr (\<lambda>row m. case getprop row column of Some (JNum n) \<Rightarrow> max n m | _ \<Rightarrow> m) rows 0 + 1"

text \<open>
  \<open>INSERT INTO t (keys) VALUES (?, ...)\<close>: the row is appended, an auto-increment
  column that the data leaves out is generated, and the result is the insert id.
\<close>

definition engine_insert :: "world \<Rightarrow> string \<Rightarrow> jsobject \<Rightarrow> error + (jsval \<times> world)" where
  "engine_insert w table data =
     (case driver_fault w (InsertRow table) of
        Some m \<Rightarrow> Inl (DriverError m)
      | None \<Rightarrow>
          (let (row, insertId) =
                 (case auto_increment_column w table of
                    None \<Rightarrow> (data, 0)
                  | Some c \<Rightarrow>
                      (case getprop data c of
                         Some (JNum n) \<Rightarrow> (data, n)
                       | _ \<Rightarrow>
                           (let n = next_auto_increment (contents w table) c
                            in (obj_set data c (JNum n), n))))
           in Inr (JNum insertId,
                   w\<lparr>contents := (contents w)(table := contents w table @ [row])\<rparr>)))"

text \<open>\<open>UPDATE t SET k = ?, ... WHERE pk = ?\<close>; an empty SET list is a syntax error.\<close>

definition engine_update :: "world \<Rightarrow> string \<Rightarrow> jsobject \<Rightarrow> string \<Rightarrow> jsval \<Rightarrow> error + world" where
  "engine_update w table data pk rid =
     (case driver_fault w (UpdateRow table) of
        Some m \<Rightarrow> Inl (DriverError m)
      | None \<Rightarrow>
          if data = [] then Inl (DriverError sql_syntax_error)
          else Inr (w\<lparr>contents := (contents w)(table :=
                       map (\<lambda>row. if sql_eq (column_value row pk) rid then obj_assign row data else row)
                         (contents w table))\<rparr>))"

text \<open>\<open>DELETE FROM t WHERE pk = :id\<close>\<close>

definition engine_delete :: "world \<Rightarrow> string \<Rightarrow> string \<Rightarrow> jsval \<Rightarrow> error + world" where
  "engine_delete w table pk rid =
     run_stmt w (DeleteRow table)
       (w\<lparr>contents := (contents w)(table :=
            filter (\<lambda>row. \<not> sql_eq (column_value row pk) rid) (contents w table))\<rparr>)"

text \<open>
  \<open>SELECT ... FROM table_configurations WHERE table_name = :table AND deleted_at IS NULL\<close>,
  destructured as \<open>[config]\<close>: the first visible row.
\<close>

definition visible_config :: "world \<Rightarrow> string \<Rightarrow> config_row option" where
  "visible_config w table =
     find (\<lambda>r. cfg_table_name r = table \<and> cfg_deleted_at r = None) (table_configurations w)"

text \<open>
  \<open>JSON.parse\<close> is a parameter of the model: it fails with a message or yields an array
  of column names. The source applies it to a truthy column value that is not already
  an array.
\<close>

type_synonym json_parser = "string \<Rightarrow> string + string list"

definition parse_columns :: "json_parser \<Rightarrow> json_column \<Rightarrow> error + string list option" where
  "parse_columns JSON_parse v =
     (case v of
        JsonNull \<Rightarrow> Inr None
      | JsonArray columns \<Rightarrow> Inr (Some columns)
      | JsonText s \<Rightarrow>
          if s = [] then Inr None
          else (case JSON_parse s of
                  Inl m \<Rightarrow> Inl (SyntaxError m)
                | Inr columns \<Rightarrow> Inr (Some columns)))"

section \<open>Generic record service (\<open>services/genericService.ts\<close>)\<close>

subsection \<open>list\<close>

text \<open>The body of the \<open>forEach\<close> over \<open>Object.keys(filters)\<close>, lines 16 to 35.\<close>

definition filter_clauses :: "string \<Rightarrow> fval option \<Rightarrow> clause list" where
  "filter_clauses key v =
     (case v of
        None \<Rightarrow> []
      | Some FUndefined \<Rightarrow> []
      | Some (FStr s) \<Rightarrow> if s = [] then [] else [Equals key (FStr s)]
      | Some (FSearch columns q) \<Rightarrow>
          if key = ''_search''
          then (if columns \<noteq> [] \<and> q \<noteq> [] then [AnyLike columns q] else [])
          else [Equals key (FSearch columns q)])"

definition build_where :: "filters \<Rightarrow> clause list" where
  "build_where fs = concat (map (\<lambda>key. filter_clauses key (map_of fs key)) (map fst fs))"

text \<open>The SQL text of one pushed clause, and the replacements it binds.\<close>

definition search_clause_sql :: "nat \<times> string \<Rightarrow> string" where
  "search_clause_sql ic = (case ic of (idx, col) \<Rightarrow> col @ '' LIKE :search_'' @ show_nat idx)"

fun clause_sql :: "clause \<Rightarrow> string" where
  "clause_sql (Equals key v) = key @ '' = :filter_'' @ key"
| "clause_sql (AnyLike columns q) =
     ''('' @ join '' OR '' (map search_clause_sql (enumerate 0 columns)) @ '')''"

fun clause_replacements :: "clause \<Rightarrow> (string \<times> fval) list" where
  "clause_replacements (Equals key v) = [(''filter_'' @ key, v)]"
| "clause_replacements (AnyLike columns q) =
     map (\<lambda>idx. (''search_'' @ show_nat idx, FStr (''%'' @ q @ ''%''))) [0..<length columns]"

definition whereSQL :: "clause list \<Rightarrow> string" where
  "whereSQL whereClauses =
     (if whereClauses \<noteq> [] then ''WHERE '' @ join '' AND '' (map clause_sql whereClauses) else [])"

text \<open>Lines 40 to 44.\<close>

definition order_by :: "string option \<Rightarrow> string option \<Rightarrow> (string \<times> string) option" where
  "order_by sortBy sortOrder =
     (if truthy_param sortBy \<and> truthy_param sortOrder
      then Some (the sortBy, if toUpperCase (the sortOrder) = ''DESC'' then ''DESC'' else ''ASC'')
      else None)"

definition orderBySQL :: "(string \<times> string) option \<Rightarrow> string" where
  "orderBySQL ord = (case ord of None \<Rightarrow> [] | Some (sortBy, dir) \<Rightarrow> ''ORDER BY '' @ sortBy @ '' '' @ dir)"

definition list_query_sql :: "string \<Rightarrow> clause list \<Rightarrow> (string \<times> string) option \<Rightarrow> string" where
  "list_query_sql table whereClauses ord =
     ''SELECT * FROM '' @ table @ '' '' @ whereSQL whereClauses @ '' '' @ orderBySQL ord
       @ '' LIMIT :limit OFFSET :offset''"

definition count_query_sql :: "string \<Rightarrow> clause list \<Rightarrow> string" where
  "count_query_sql table whereClauses =
     ''SELECT COUNT(*) as total FROM '' @ table @ '' '' @ whereSQL whereClauses"

record list_result =
  lr_data :: "jsobject list"
  lr_total :: nat

definition service_list ::
  "world \<Rightarrow> string \<Rightarrow> jsnum \<Rightarrow> jsnum \<Rightarrow> filters \<Rightarrow> string option \<Rightarrow> string option \<Rightarrow> error + list_result" where
  "service_list w table page limit fs sortBy sortOrder =
     (case checkTableExists w table of
        Inl e \<Rightarrow> Inl e
      | Inr exists \<Rightarrow>
          if \<not> exists then Inl InvalidTable
          else
            (let offset = list_offset page limit;
                 whereClauses = build_where fs
             in case engine_select w table whereClauses (order_by sortBy sortOrder) limit offset of
                  Inl e \<Rightarrow> Inl e
                | Inr rows \<Rightarrow>
                    (case engine_count w table whereClauses of
                       Inl e \<Rightarrow> Inl e
                     | Inr count \<Rightarrow> Inr \<lparr>lr_data = rows, lr_total = count\<rparr>)))"

subsection \<open>get\<close>

definition service_get :: "world \<Rightarrow> string \<Rightarrow> jsval \<Rightarrow> (error + jsobject option) \<times> world" where
  "service_get w table rid =
     (case checkTableExists w table of
        Inl e \<Rightarrow> (Inl e, w)
      | Inr exists \<Rightarrow>
          if \<not> exists then (Inl InvalidTable, w)
          else (case getTableMetadata w table of
                  (Inl e, w1) \<Rightarrow> (Inl e, w1)
                | (Inr metadata, w1) \<Rightarrow>
                    (case engine_select_by_id w1 table (md_primaryKey metadata) rid of
                       Inl e \<Rightarrow> (Inl e, w1)
                     | Inr rows \<Rightarrow> (Inr (case rows of [] \<Rightarrow> None | r # _ \<Rightarrow> Some r), w1))))"

subsection \<open>create and update\<close>

text \<open>Lines 85 to 92: the first column that fails a check throws.\<close>

fun validate_columns :: "column_descriptor list \<Rightarrow> jsobject \<Rightarrow> error option" where
  "validate_columns [] data = None"
| "validate_columns (col # cols) data =
     (if \<not> col_nullable col \<and> \<not> col_isAutoIncrement col \<and> getprop data (col_name col) = None
      then Some (ColumnRequired (col_name col))
      else (case col_maxLength col of
              None \<Rightarrow> validate_columns cols data
            | Some maxLength \<Rightarrow>
                if maxLength \<noteq> 0 \<and> truthy (getprop data (col_name col))
                   \<and> length (String_js (the (getprop data (col_name col)))) > maxLength
                then Some (ExceedsMaxLength (col_name col) maxLength)
                else validate_columns cols data))"

text \<open>
  The loop over \<open>uniqueColumns\<close>, lines 110 to 124 and 170 to 184; \<open>excluded\<close> is the
  primary key and the id of the row being updated.
\<close>

fun check_unique_columns ::
  "world \<Rightarrow> string \<Rightarrow> jsobject \<Rightarrow> (string \<times> jsval) option \<Rightarrow> string list \<Rightarrow> error + unit" where
  "check_unique_columns w table data excluded [] = Inr ()"
| "check_unique_columns w table data excluded (column # columns) =
     (case getprop data column of
        None \<Rightarrow> check_unique_columns w table data excluded columns
      | Some JNull \<Rightarrow> check_unique_columns w table data excluded columns
      | Some v \<Rightarrow>
          (case engine_count_duplicates w table column v excluded of
             Inl e \<Rightarrow> Inl e
           | Inr n \<Rightarrow>
               if n > 0 then Inl (AlreadyExists column v)
               else check_unique_columns w table data excluded columns))"

text \<open>The \<open>try\<close> block.\<close>

definition unique_constraints_try ::
  "json_parser \<Rightarrow> world \<Rightarrow> string \<Rightarrow> jsobject \<Rightarrow> (string \<times> jsval) option \<Rightarrow> error + unit" where
  "unique_constraints_try JSON_parse w table data excluded =
     (case run_stmt w (ConfigUnique table) (visible_config w table) of
        Inl e \<Rightarrow> Inl e
      | Inr None \<Rightarrow> Inr ()
      | Inr (Some config) \<Rightarrow>
          (case parse_columns JSON_parse (cfg_unique_constraints config) of
             Inl e \<Rightarrow> Inl e
           | Inr None \<Rightarrow> Inr ()
           | Inr (Some uniqueColumns) \<Rightarrow> check_unique_columns w table data excluded uniqueColumns))"

text \<open>
  The \<open>catch\<close>: an error whose message includes \<open>already exists\<close> is thrown again,
  any other is dropped and the operation goes on.
\<close>

definition check_unique_constraints ::
  "json_parser \<Rightarrow> world \<Rightarrow> string \<Rightarrow> jsobject \<Rightarrow> (string \<times> jsval) option \<Rightarrow> error option" where
  "check_unique_constraints JSON_parse w table data excluded =
     (case unique_constraints_try JSON_parse w table data excluded of
        Inr _ \<Rightarrow> None
      | Inl e \<Rightarrow> if str_includes (message e) ''already exists'' then Some e else None)"

definition service_create ::
  "json_parser \<Rightarrow> world \<Rightarrow> string \<Rightarrow> jsobject \<Rightarrow> (error + jsval) \<times> world" where
  "service_create JSON_parse w table data =
     (case checkTableExists w table of
        Inl e \<Rightarrow> (Inl e, w)
      | Inr exists \<Rightarrow>
          if \<not> exists then (Inl InvalidTable, w)
          else (case getTableMetadata w table of
                  (Inl e, w1) \<Rightarrow> (Inl e, w1)
                | (Inr metadata, w1) \<Rightarrow>
                    (case validate_columns (md_columns metadata) data of
                       Some e \<Rightarrow> (Inl e, w1)
                     | None \<Rightarrow>
                         (case check_unique_constraints JSON_parse w1 table data None of
                            Some e \<Rightarrow> (Inl e, w1)
                          | None \<Rightarrow>
                              (case engine_insert w1 table data of
                                 Inl e \<Rightarrow> (Inl e, w1)
                               | Inr (result, w2) \<Rightarrow> (Inr result, w2))))))"

definition service_update ::
  "json_parser \<Rightarrow> world \<Rightarrow> string \<Rightarrow> jsval \<Rightarrow> jsobject \<Rightarrow> (error + jsobject option) \<times> world" where
  "service_update JSON_parse w table rid data =
     (case checkTableExists w table of
        Inl e \<Rightarrow> (Inl e, w)
      | Inr exists \<Rightarrow>
          if \<not> exists then (Inl InvalidTable, w)
          else (case getTableMetadata w table of
                  (Inl e, w1) \<Rightarrow> (Inl e, w1)
                | (Inr metadata, w1) \<Rightarrow>
                    (let pk = md_primaryKey metadata
                     in case check_unique_constraints JSON_parse w1 table data (Some (pk, rid)) of
                          Some e \<Rightarrow> (Inl e, w1)
                        | None \<Rightarrow>
                            (case engine_update w1 table data pk rid of
                               Inl e \<Rightarrow> (Inl e, w1)
                             | Inr w2 \<Rightarrow> service_get w2 table rid))))"

subsection \<open>delete\<close>

definition service_delete :: "world \<Rightarrow> string \<Rightarrow> jsval \<Rightarrow> (error + unit) \<times> world" where
  "service_delete w table rid =
     (case checkTableExists w table of
        Inl e \<Rightarrow> (Inl e, w)
      | Inr exists \<Rightarrow>
          if \<not> exists then (Inl InvalidTable, w)
          else (case getTableMetadata w table of
                  (Inl e, w1) \<Rightarrow> (Inl e, w1)
                | (Inr metadata, w1) \<Rightarrow>
                    (case engine_delete w1 table (md_primaryKey metadata) rid of
                       Inl e \<Rightarrow> (Inl e, w1)
                     | Inr w2 \<Rightarrow> (Inr (), w2))))"

section \<open>HTTP surface (\<open>controllers/genericController.ts\<close>)\<close>

text \<open>
  A response is the status code and the JSON envelope: \<open>success\<close>, the payload, the
  message.
\<close>

datatype 'a response = Response nat bool "'a option" "string option"



fun payload :: "'a response \<Rightarrow> 'a option" where
  "payload (Response code ok body msg) = body"

text \<open>
  A list request: the table of the route, the string-valued members of \<open>req.query\<close>, and
  \<open>req.query.filter\<close> when the query parser made it a nested object.
\<close>

record list_request =
  rq_table :: string
  rq_query :: query
  rq_filter :: "filters option"

definition isDigit :: "char \<Rightarrow> bool" where
  "isDigit c = (let n = (of_char c :: nat) in 48 \<le> n \<and> n \<le> 57)"

definition isWordChar :: "char \<Rightarrow> bool" where
  "isWordChar c =
     (let n = (of_char c :: nat)
      in (48 \<le> n \<and> n \<le> 57) \<or> (65 \<le> n \<and> n \<le> 90) \<or> (97 \<le> n \<and> n \<le> 122) \<or> n = 95)"

text \<open>\<open>key.match(/^filters\[(\d+)\]\[(\w+)\]$/)\<close>: the index and the property.\<close>

definition match_refine_key :: "string \<Rightarrow> (string \<times> string) option" where
  "match_refine_key key =
     (if startsWith key ''filters[''
      then (let r = drop 8 key;
                index = takeWhile isDigit r;
                r2 = dropWhile isDigit r
            in if index \<noteq> [] \<and> startsWith r2 ''][''
               then (let r3 = drop 2 r2;
                         p = takeWhile isWordChar r3;
                         r4 = dropWhile isWordChar r3
                     in if p \<noteq> [] \<and> r4 = '']'' then Some (index, p) else None)
               else None)
      else None)"

text \<open>\<open>key.match(/^filter\[(.*)\]$/)\<close>: the field.\<close>

definition isLineTerminator :: "char \<Rightarrow> bool" where
  "isLineTerminator c = ((of_char c :: nat) = 10 \<or> (of_char c :: nat) = 13)"

definition match_legacy_key :: "string \<Rightarrow> string option" where
  "match_legacy_key key =
     (if startsWith key ''filter['' \<and> 8 \<le> length key \<and> last key = CHR '']''
         \<and> \<not> list_ex isLineTerminator (butlast (drop 7 key))
      then Some (butlast (drop 7 key))
      else None)"

text \<open>Lines 69 to 86: one step of the first \<open>forEach\<close>, on the filters and \<open>searchQuery\<close>.\<close>

definition refine_step :: "query \<Rightarrow> filters \<times> string option \<Rightarrow> string \<Rightarrow> filters \<times> string option" where
  "refine_step q st key =
     (case match_refine_key key of
        None \<Rightarrow> st
      | Some (index, p) \<Rightarrow>
          if p = ''field''
          then (case qparam q key of
                  None \<Rightarrow> st
                | Some field \<Rightarrow>
                    (let v = qparam q (''filters['' @ index @ ''][value]'')
                     in if field = ''_search'' \<and> truthy_param v then (fst st, v)
                        else if truthy_param v then (obj_set (fst st) field (FStr (the v)), snd st)
                        else st))
          else st)"

text \<open>Lines 89 to 94.\<close>

definition legacy_step :: "query \<Rightarrow> filters \<Rightarrow> string \<Rightarrow> filters" where
  "legacy_step q fs key =
     (case match_legacy_key key of
        None \<Rightarrow> fs
      | Some field \<Rightarrow> (case qparam q key of None \<Rightarrow> fs | Some v \<Rightarrow> obj_set fs field (FStr v)))"

text \<open>Lines 65 to 104: the filters and the search query before the configuration is read.\<close>

definition parse_filters :: "list_request \<Rightarrow> filters \<times> string option" where
  "parse_filters rq =
     (let q = rq_query rq;
          st = foldl (refine_step q) ([], None) (map fst q);
          fs2 = foldl (legacy_step q) (fst st) (map fst q);
          fs3 = (case rq_filter rq of Some obj \<Rightarrow> obj_assign fs2 obj | None \<Rightarrow> fs2);
          searchQuery = (if truthy_param (qparam q ''_search'') then qparam q ''_search'' else snd st)
      in (fs3, searchQuery))"

text \<open>
  Lines 107 to 134: with a search query, the searchable columns of the visible
  configuration row become \<open>filters._search\<close>; any error is dropped.
\<close>

definition load_search :: "json_parser \<Rightarrow> world \<Rightarrow> string \<Rightarrow> filters \<Rightarrow> string option \<Rightarrow> filters" where
  "load_search JSON_parse w table fs searchQuery =
     (if truthy_param searchQuery
      then (case run_stmt w (ConfigSearchable table) (visible_config w table) of
              Inl e \<Rightarrow> fs
            | Inr None \<Rightarrow> fs
            | Inr (Some config) \<Rightarrow>
                (case parse_columns JSON_parse (cfg_searchable_columns config) of
                   Inl e \<Rightarrow> fs
                 | Inr None \<Rightarrow> fs
                 | Inr (Some searchableColumns) \<Rightarrow>
                     if searchableColumns \<noteq> []
                     then obj_set fs ''_search'' (FSearch searchableColumns (the searchQuery))
                     else fs))
      else fs)"

definition list_filters :: "json_parser \<Rightarrow> world \<Rightarrow> list_request \<Rightarrow> filters" where
  "list_filters JSON_parse w rq =
     (case parse_filters rq of
        (fs, searchQuery) \<Rightarrow> load_search JSON_parse w (rq_table rq) fs searchQuery)"

definition controller_list :: "json_parser \<Rightarrow> world \<Rightarrow> list_request \<Rightarrow> list_result response" where
  "controller_list JSON_parse w rq =
     (case list_pagination (rq_query rq) of
        (page, limit) \<Rightarrow>
          (case service_list w (rq_table rq) page limit (list_filters JSON_parse w rq)
                  (qparam (rq_query rq) ''sortBy'') (qparam (rq_query rq) ''sortOrder'') of
             Inr result \<Rightarrow> Response 200 True (Some result) None
           | Inl e \<Rightarrow> Response 400 False None (Some (message e))))"

definition controller_getTableMetadata :: "world \<Rightarrow> string \<Rightarrow> table_metadata response \<times> world" where
  "controller_getTableMetadata w table =
     (case getTableMetadata w table of
        (Inr metadata, w1) \<Rightarrow> (Response 200 True (Some metadata) None, w1)
      | (Inl e, w1) \<Rightarrow> (Response 400 False None (Some (message e)), w1))"


definition controller_update ::
  "json_parser \<Rightarrow> world \<Rightarrow> string \<Rightarrow> string \<Rightarrow> jsobject \<Rightarrow> jsobject option response \<times> world" where
  "controller_update JSON_parse w table rid body =
     (case service_update JSON_parse w table (JStr rid) body of
        (Inr result, w1) \<Rightarrow> (Response 200 True (Some result) None, w1)
      | (Inl e, w1) \<Rightarrow> (Response 400 False None (Some (message e)), w1))"

section \<open>Table configuration store (\<open>controllers/tableConfigController.ts\<close>)\<close>










section \<open>Predicates used in the statements\<close>

definition at_least_one :: "jsnum \<Rightarrow> bool" where
  "at_least_one n = (case n of Fin i \<Rightarrow> 1 \<le> i | PosInf \<Rightarrow> True | _ \<Rightarrow> False)"

text \<open>
  A pagination parameter in the range where doubles are exact: it is absent or not a
  number, or it parses to an integer from 0 to \<open>2^53\<close>.
\<close>

definition safe_param :: "string option \<Rightarrow> bool" where
  "safe_param v = (case parseInt_param v of Fin n \<Rightarrow> 0 \<le> n \<and> n \<le> 2 ^ 53 | NaN \<Rightarrow> True | _ \<Rightarrow> False)"

definition window_start :: "query \<Rightarrow> jsnum" where
  "window_start q = or_default (parseInt_param (qparam q ''_start'')) 0"

definition window_end :: "query \<Rightarrow> jsnum" where
  "window_end q = or_default (parseInt_param (qparam q ''_end'')) 30"

definition window_ordered :: "query \<Rightarrow> bool" where
  "window_ordered q =
     (case (window_start q, window_end q) of (Fin s, Fin e) \<Rightarrow> s < e | _ \<Rightarrow> False)"

definition falls_back :: "string option \<Rightarrow> bool" where
  "falls_back v = (parseInt_param v = NaN \<or> parseInt_param v = Fin 0)"



text \<open>No driver failure on the two catalog statements of \<open>getTableMetadata\<close>.\<close>

definition catalog_reachable :: "world \<Rightarrow> string \<Rightarrow> bool" where
  "catalog_reachable w t =
     (driver_fault w (CheckTable t) = None \<and> driver_fault w (DescribeColumns t) = None)"

text \<open>The driver raises no error on any of the statements listed.\<close>

definition quiet :: "world \<Rightarrow> stmt list \<Rightarrow> bool" where
  "quiet w stmts = list_all (\<lambda>s. driver_fault w s = None) stmts"

text \<open>Every key of the filters other than \<open>_search\<close> has an equality clause.\<close>

definition every_key_has_predicate :: "filters \<Rightarrow> clause list \<Rightarrow> bool" where
  "every_key_has_predicate fs clauses =
     list_all (\<lambda>k. k = ''_search''
                 \<or> list_ex (\<lambda>c. case c of Equals k' v \<Rightarrow> k' = k | AnyLike cols q \<Rightarrow> False) clauses)
       (map fst fs)"

text \<open>A filter entry that \<open>list\<close> turns into a clause, and the clause.\<close>

definition pushes_clause :: "string \<times> fval \<Rightarrow> bool" where
  "pushes_clause kv = (fst kv = ''_search'' \<or> (snd kv \<noteq> FUndefined \<and> snd kv \<noteq> FStr []))"

definition clause_of :: "string list \<Rightarrow> string \<Rightarrow> string \<times> fval \<Rightarrow> clause" where
  "clause_of columns q kv = (if fst kv = ''_search'' then AnyLike columns q else Equals (fst kv) (snd kv))"


definition is_conflict :: "(error + 'a) \<Rightarrow> bool" where
  "is_conflict r = (case r of Inl e \<Rightarrow> is_conflict_error e | Inr _ \<Rightarrow> False)"



section \<open>Example worlds\<close>

text \<open>The \<open>students\<close> table of the README and of the spec's scenario.\<close>

definition students_columns :: "raw_column list" where
  "students_columns =
     [\<lparr>rc_name = ''id'', rc_type = ''int'', rc_isNullable = ''NO'', rc_key = ''PRI'',
       rc_extra = ''auto_increment'', rc_maxLength = None\<rparr>,
      \<lparr>rc_name = ''name'', rc_type = ''varchar'', rc_isNullable = ''NO'', rc_key = [],
       rc_extra = [], rc_maxLength = Some 255\<rparr>,
      \<lparr>rc_name = ''reg_no'', rc_type = ''varchar'', rc_isNullable = ''NO'', rc_key = ''UNI'',
       rc_extra = [], rc_maxLength = Some 50\<rparr>,
      \<lparr>rc_name = ''department'', rc_type = ''varchar'', rc_isNullable = ''YES'', rc_key = [],
       rc_extra = [], rc_maxLength = Some 100\<rparr>]"

definition students_config :: config_row where
  "students_config =
     \<lparr>cfg_id = 1, cfg_table_name = ''students'',
      cfg_column_order = JsonArray [''name'', ''reg_no'', ''department''],
      cfg_unique_constraints = JsonArray [''reg_no''],
      cfg_sortable_columns = JsonArray [''name'', ''reg_no''],
      cfg_searchable_columns = JsonArray [''name'', ''reg_no''],
      cfg_filterable_columns = JsonArray [''department''],
      cfg_updated_at = 0, cfg_deleted_at = None\<rparr>"

definition ann :: jsobject where
  "ann = [(''id'', JNum 1), (''name'', JStr ''Ann''), (''reg_no'', JStr ''R1'')]"

definition bob :: jsobject where
  "bob = [(''id'', JNum 2), (''name'', JStr ''Bob''), (''reg_no'', JStr ''R2'')]"

definition school :: world where
  "school =
     \<lparr>catalog = (\<lambda>t. if t = ''students'' then Some students_columns else None),
      contents = (\<lambda>t. if t = ''students'' then [ann, bob] else []),
      table_configurations = [students_config],
      clock = 7,
      driver_fault = (\<lambda>s. None),
      metadataCache = (\<lambda>t. None)\<rparr>"


definition no_json :: json_parser where
  "no_json s = Inl ''Unexpected token''"





text \<open>
  The school with a third student whose \<open>reg_no\<close> repeats Ann's, as rows written before
  the unique constraint was configured can.
\<close>

definition school_dup :: world where
  "school_dup =
     school\<lparr>contents :=
              (\<lambda>t. if t = ''students''
                    then [ann, bob, [(''id'', JNum 3), (''name'', JStr ''Ann B''), (''reg_no'', JStr ''R1'')]]
                    else [])\<rparr>"

section \<open>Pagination of the list route\<close>

subsection \<open>Doubles that are exact\<close>

lemma bit_length_le: "0 \<le> n \<Longrightarrow> (bit_length n \<le> k) = (n < 2 ^ k)"
proof (induction n arbitrary: k rule: bit_length.induct)
  case (1 n)
  show ?case
  proof (cases "n = 0")
    case True thus ?thesis by (simp add: bit_length.simps)
  next
    case False
    with 1 have pos: "0 < n" by simp
    show ?thesis
    proof (cases k)
      case 0 with pos show ?thesis by (simp add: bit_length.simps [of n])
    next
      case (Suc j)
      from pos have "\<not> n \<le> 0" "0 \<le> n div 2" by simp_all
      from 1(1) [OF this, of j] have "(bit_length (n div 2) \<le> j) = (n div 2 < 2 ^ j)" .
      moreover have "(n div 2 < 2 ^ j) = (n < 2 ^ Suc j)" by auto
      ultimately show ?thesis using pos Suc by (simp add: bit_length.simps [of n])
    qed
  qed
qed

lemma nat_to_double_exact:
  assumes "0 \<le> n" "n \<le> 2 ^ 53"
  shows "nat_to_double n = Some n"
proof (cases "n = 2 ^ 53")
  case True
  have "nat_to_double 9007199254740992 = Some 9007199254740992" by code_simp
  with True show ?thesis by simp
next
  case False
  with assms have "n < 2 ^ 53" by simp
  with assms(1) have "bit_length n \<le> 53" by (simp add: bit_length_le)
  thus ?thesis by (simp add: nat_to_double_def)
qed

lemma to_double_exact: "\<bar>n\<bar> \<le> 2 ^ 53 \<Longrightarrow> to_double n = Fin n"
  using nat_to_double_exact [of "\<bar>n\<bar>"] by (simp add: to_double_def)

lemma round_half_even_exact:
  assumes l: "0 < l" and u: "0 < u" and s: "0 \<le> s" "s \<le> 2 ^ 53"
    and scale: "l * 2 ^ 52 \<le> s * u"
  shows "round_half_even (s * u) l div u = s div l"
proof -
  define q where "q = s div l"
  define r where "r = s mod l"
  define d where "d = (s * u) div l"
  define m where "m = (s * u) mod l"
  have S: "s = l * q + r" "0 \<le> r" "r < l"
    using l by (simp_all add: q_def r_def)
  have N: "s * u = l * d + m" "0 \<le> m" "m < l"
    using l by (simp_all add: d_def m_def)
  have q0: "0 \<le> q" using s l by (simp add: q_def pos_imp_zdiv_nonneg_iff)
  have eq: "l * d + m = l * (q * u) + r * u"
    using N(1) S(1) by (simp add: algebra_simps)
  have lower: "q * u \<le> d"
  proof -
    have "0 \<le> r * u" using S(2) u by simp
    with eq N(3) have "l * (q * u) < l * (d + 1)" by (simp add: algebra_simps)
    with l have "q * u < d + 1" by (simp add: mult_less_cancel_left_pos)
    thus ?thesis by simp
  qed
  have upper: "d < (q + 1) * u"
  proof -
    from S(3) u have "r * u \<le> (l - 1) * u" by (intro mult_right_mono) simp_all
    with eq N(2) have "l * d \<le> l * (q * u) + (l - 1) * u" by simp
    also have "\<dots> < l * ((q + 1) * u)" using u by (simp add: algebra_simps)
    finally show ?thesis using l by (simp add: mult_less_cancel_left_pos)
  qed
  have no_carry: "d + 1 < (q + 1) * u" if up: "l \<le> 2 * m"
  proof (rule ccontr)
    assume "\<not> d + 1 < (q + 1) * u"
    with upper have d: "d = (q + 1) * u - 1" by simp
    from eq have "(l - r) * u = l - m" unfolding d by (simp add: algebra_simps)
    with up have gap: "2 * ((l - r) * u) \<le> l" by simp
    have "1 * u \<le> (l - r) * u" using S(3) u by (intro mult_right_mono) simp_all
    with gap have l2u: "2 * u \<le> l" by simp
    have "s * (2 * u) \<le> s * l" using l2u s(1) by (intro mult_left_mono)
    with scale have "l * 2 ^ 53 \<le> l * s" by (simp add: algebra_simps)
    with l have "2 ^ 53 \<le> s" by (simp only: mult_le_cancel_left_pos)
    with s(2) have s53: "s = 2 ^ 53" by simp
    from scale have "l * 2 ^ 52 \<le> (2 * u) * 2 ^ 52" unfolding s53 by simp
    hence "l \<le> 2 * u" by simp
    with l2u have leq: "l = 2 * u" by simp
    from gap have "l * (l - r) \<le> l * 1" unfolding leq by (simp add: algebra_simps)
    with l have "l - r \<le> 1" by (simp only: mult_le_cancel_left_pos)
    with S(3) have "r = l - 1" by simp
    with S(1) s53 leq have "(2::int) ^ 53 + 1 = 2 * (u * (q + 1))" by (simp add: algebra_simps)
    moreover have "even (2 * (u * (q + 1)))" by simp
    ultimately have "even ((2::int) ^ 53 + 1)" by (simp only:)
    thus False by simp
  qed
  have rhe: "round_half_even (s * u) l = (if l < 2 * m \<or> (2 * m = l \<and> odd d) then d + 1 else d)"
    by (simp add: round_half_even_def d_def m_def Let_def)
  have bounds: "q * u \<le> round_half_even (s * u) l \<and> round_half_even (s * u) l < (q + 1) * u"
    using lower upper no_carry unfolding rhe by auto
  have "round_half_even (s * u) l div u = q"
    by (rule int_div_pos_eq [of _ u q "round_half_even (s * u) l - u * q"])
       (use bounds in \<open>simp_all add: algebra_simps\<close>)
  thus ?thesis by (simp add: q_def)
qed


lemma mult_div_le_int: "0 < l \<Longrightarrow> l * (s div l) \<le> (s::int)"
  using pos_mod_sign [of l s] mult_div_mod_eq [of l s] by linarith

lemma rounded_quotient_exact:
  assumes s: "0 < s" "s \<le> 2 ^ 53" and l: "0 < l" "l \<le> 2 ^ 53"
  shows "fst (rounded_quotient s l) div snd (rounded_quotient s l) = s div l"
proof (cases "l \<le> s")
  case True
  define q where "q = s div l"
  define e where "e = bit_length q"
  have "0 < s div l" using True l(1) by (simp add: pos_imp_zdiv_pos_iff)
  hence q1: "1 \<le> q" unfolding q_def by simp
  have ql: "l * q \<le> s" using l(1) unfolding q_def by (rule mult_div_le_int)
  show ?thesis
  proof (cases "53 \<le> e")
    case False
    hence e53: "e < 53" by simp
    have "\<not> bit_length q \<le> e - 1"
    proof
      assume "bit_length q \<le> e - 1"
      moreover have "e \<noteq> 0" using q1 unfolding e_def by (simp add: bit_length.simps [of q])
      ultimately show False unfolding e_def by simp
    qed
    with q1 have "2 ^ (e - 1) \<le> q" by (simp add: bit_length_le)
    hence "l * 2 ^ (e - 1) \<le> l * q" using l(1) by simp
    with ql have "l * 2 ^ (e - 1) \<le> s" by simp
    hence a: "(l * 2 ^ (e - 1)) * 2 ^ (53 - e) \<le> s * 2 ^ (53 - e)"
      by (intro mult_right_mono) simp_all
    have "e \<noteq> 0" using q1 unfolding e_def by (simp add: bit_length.simps [of q])
    hence "(e - 1) + (53 - e) = 52" using e53 by simp
    hence b: "(2::int) ^ (e - 1) * 2 ^ (53 - e) = 2 ^ 52" by (simp only: power_add [symmetric])
    have "(l * 2 ^ (e - 1)) * 2 ^ (53 - e) = l * 2 ^ 52" by (simp only: mult.assoc b)
    with a have scale: "l * 2 ^ 52 \<le> s * 2 ^ (53 - e)" by (simp only:)
    have "round_half_even (s * 2 ^ (53 - e)) l div 2 ^ (53 - e) = s div l"
      by (rule round_half_even_exact) (use s l scale in simp_all)
    thus ?thesis using True False
      by (simp add: rounded_quotient_def Let_def e_def q_def)
  next
    case big: True
    have qs: "q \<le> s"
    proof -
      have "1 * q \<le> l * q" using l(1) q1 by (intro mult_right_mono) simp_all
      with ql show ?thesis by simp
    qed
    with s(2) have "q < 2 ^ 54" by simp
    with q1 have e54: "e \<le> 54" unfolding e_def by (simp add: bit_length_le)
    have e_cases: "e = 53 \<or> e = 54" using big e54 by auto
    from big have "\<not> bit_length q \<le> 52" unfolding e_def by simp
    with q1 have q52: "2 ^ 52 \<le> q" by (simp add: bit_length_le)
    hence "l * 2 ^ 52 \<le> l * q" using l(1) by simp
    with ql s(2) have "l * 2 ^ 52 \<le> 2 * 2 ^ 52" by simp
    hence l2: "l = 1 \<or> l = 2" using l(1) by auto
    have top: "fst (rounded_quotient 9007199254740992 2) div snd (rounded_quotient 9007199254740992 2)
                 = 9007199254740992 div 2"
              "fst (rounded_quotient 9007199254740992 1) div snd (rounded_quotient 9007199254740992 1)
                 = 9007199254740992 div 1"
      by code_simp+
    show ?thesis
    proof (cases "s = 2 ^ 53")
      case True
      with l2 top show ?thesis by auto
    next
      case False
      with s(2) have s53: "s < 2 ^ 53" by simp
      have l1: "l = 1"
      proof (rule ccontr)
        assume "l \<noteq> 1"
        with l2 have "l = 2" by simp
        with ql q52 s53 show False by simp
      qed
      hence qs: "q = s" by (simp add: q_def)
      with s53 s(1) have "bit_length q \<le> 53" by (simp add: bit_length_le)
      with big have e: "bit_length s = 53" unfolding e_def qs by simp
      show ?thesis using l1 e s(1)
        by (simp add: rounded_quotient_def Let_def round_half_even_def)
    qed
  qed
next
  case False
  define x where "x = (l - 1) div s"
  define n where "n = bit_length x"
  have x0: "0 \<le> x" using s(1) l(1) unfolding x_def by (simp add: pos_imp_zdiv_nonneg_iff)
  have "x \<le> l - 1"
  proof -
    have "s * x \<le> l - 1" using s(1) unfolding x_def by (rule mult_div_le_int)
    moreover have "1 * x \<le> s * x" using s(1) x0 by (intro mult_right_mono) simp_all
    ultimately show ?thesis by simp
  qed
  with l(2) have "x < 2 ^ 53" by simp
  with x0 have n53: "n \<le> 53" unfolding n_def by (simp add: bit_length_le)
  have "x < 2 ^ n" using x0 bit_length_le [of x n] unfolding n_def by simp
  hence "x + 1 \<le> 2 ^ n" by simp
  hence "s * (x + 1) \<le> s * 2 ^ n" using s(1) by (intro mult_left_mono) simp_all
  moreover have "l - 1 < s * (x + 1)"
  proof -
    have "l - 1 = s * x + (l - 1) mod s" unfolding x_def by simp
    moreover have "(l - 1) mod s < s" using s(1) by simp
    ultimately show ?thesis by (simp add: algebra_simps)
  qed
  ultimately have "l \<le> s * 2 ^ n" by simp
  hence "l * 2 ^ 52 \<le> (s * 2 ^ n) * 2 ^ 52" by (intro mult_right_mono) simp_all
  hence scale: "l * 2 ^ 52 \<le> s * 2 ^ (52 + n)" by (simp add: power_add mult.assoc mult.commute)
  have "round_half_even (s * 2 ^ (52 + n)) l div 2 ^ (52 + n) = s div l"
    by (rule round_half_even_exact) (use s l scale in simp_all)
  moreover have "min (52 + n) 1074 = 52 + n" using n53 by simp
  ultimately show ?thesis using False
    by (simp add: rounded_quotient_def Let_def n_def x_def)
qed

lemma js_floor_div_exact:
  assumes "0 \<le> s" "s \<le> 2 ^ 53" "0 < l" "l \<le> 2 ^ 53"
  shows "js_floor_div (Fin s) (Fin l) = Fin (s div l)"
proof (cases "s = 0")
  case True thus ?thesis using assms by simp
next
  case False
  with assms have "0 < s" by simp
  from rounded_quotient_exact [OF this assms(2-4)] show ?thesis
    using assms False by (simp add: split_beta)
qed

subsection \<open>The three dialects\<close>

lemma or_default_safe:
  assumes "safe_param v" "0 \<le> d" "d \<le> 2 ^ 53"
  shows "\<exists>n. or_default (parseInt_param v) d = Fin n \<and> 0 \<le> n \<and> n \<le> 2 ^ 53
             \<and> (0 < d \<longrightarrow> 1 \<le> n)"
  using assms by (cases "parseInt_param v") (auto simp: safe_param_def or_default_def)

lemma or_default_falls_back:
  "falls_back v \<Longrightarrow> or_default (parseInt_param v) d = Fin d"
  by (auto simp: falls_back_def or_default_def)

text \<open>
  C2, as stated, fails. A negative number is truthy, so \<open>parseInt(x) || 1\<close> keeps it:
  \<open>?current=-2&pageSize=-5\<close> reaches the service as page -2 and limit -5. And the
  numbers are doubles: \<open>?_start=9007199254740992&_end=9007199254740993\<close> parses both
  values to \<open>2^53\<close>, so that the limit is 0 and the page \<open>Math.floor(2^53 / 0) + 1\<close>,
  Infinity.
\<close>

theorem list_pagination_negative:
  "\<not> (at_least_one (fst (list_pagination [(''current'', ''-2''), (''pageSize'', ''-5'')]))
      \<and> at_least_one (snd (list_pagination [(''current'', ''-2''), (''pageSize'', ''-5'')])))
   \<and> list_pagination [(''current'', ''-2''), (''pageSize'', ''-5'')] = (Fin (- 2), Fin (- 5))
   \<and> list_pagination [(''_start'', ''9007199254740992''), (''_end'', ''9007199254740993'')]
         = (PosInf, Fin 0)"
  by code_simp

text \<open>
  C2, amended: when every pagination parameter is absent, not a number, or an integer from
  0 to \<open>2^53\<close>, and in the \<open>_start\<close>/\<open>_end\<close> dialect the start is below the
  end, the page and the limit handed to the service are integers of at least 1, and the
  offset is the integer \<open>(page - 1) * limit\<close> while that is within \<open>2^53\<close>. In the \<open>_start\<close>/\<open>_end\<close> dialect the limit is \<open>end - start\<close> and the
  page \<open>start div limit + 1\<close>; in the other two a value that is missing, not a number or
  zero falls back to page 1 and limit 30.
\<close>

theorem list_pagination_bounds:
  assumes nn: "\<forall>k \<in> set [''current'', ''pageSize'', ''_start'', ''_end'', ''page'', ''per_page''].
                 safe_param (qparam q k)"
    and se: "list_dialect q = StartEnd \<longrightarrow> window_ordered q"
  shows "\<exists>p l. list_pagination q = (Fin p, Fin l) \<and> 1 \<le> p \<and> 1 \<le> l
           \<and> ((p - 1) * l \<le> 2 ^ 53 \<longrightarrow> list_offset (Fin p) (Fin l) = Fin ((p - 1) * l))
           \<and> (list_dialect q = StartEnd \<longrightarrow>
                (\<exists>s e. window_start q = Fin s \<and> window_end q = Fin e
                       \<and> l = e - s \<and> p = s div l + 1))
           \<and> (list_dialect q = CurrentPageSize \<and> falls_back (qparam q ''current'') \<longrightarrow> p = 1)
           \<and> (list_dialect q = CurrentPageSize \<and> falls_back (qparam q ''pageSize'') \<longrightarrow> l = 30)
           \<and> (list_dialect q = PagePerPage \<and> falls_back (qparam q ''page'') \<longrightarrow> p = 1)
           \<and> (list_dialect q = PagePerPage \<and> falls_back (qparam q ''per_page'') \<longrightarrow> l = 30)"
proof -
  have offset: "(p - 1) * l \<le> 2 ^ 53 \<longrightarrow> list_offset (Fin p) (Fin l) = Fin ((p - 1) * l)" for p l
    by (simp add: list_offset_def)
  show ?thesis
  proof (cases "list_dialect q")
    case CurrentPageSize
    from nn obtain p where p: "or_default (parseInt_param (qparam q ''current'')) 1 = Fin p"
        "1 \<le> p" "p \<le> 2 ^ 53"
      using or_default_safe [of "qparam q ''current''" 1] by auto
    from nn obtain l where l: "or_default (parseInt_param (qparam q ''pageSize'')) 30 = Fin l"
        "1 \<le> l" "l \<le> 2 ^ 53"
      using or_default_safe [of "qparam q ''pageSize''" 30] by auto
    have "list_pagination q = (Fin p, Fin l)"
      using CurrentPageSize p(1) l(1) by (simp add: list_pagination_def)
    moreover have "falls_back (qparam q ''current'') \<longrightarrow> p = 1"
      using p(1) by (auto simp: or_default_falls_back)
    moreover have "falls_back (qparam q ''pageSize'') \<longrightarrow> l = 30"
      using l(1) by (auto simp: or_default_falls_back)
    ultimately show ?thesis using CurrentPageSize p(2) l(2) offset [of p l] by auto
  next
    case PagePerPage
    from nn obtain p where p: "or_default (parseInt_param (qparam q ''page'')) 1 = Fin p"
        "1 \<le> p" "p \<le> 2 ^ 53"
      using or_default_safe [of "qparam q ''page''" 1] by auto
    from nn obtain l where l: "or_default (parseInt_param (qparam q ''per_page'')) 30 = Fin l"
        "1 \<le> l" "l \<le> 2 ^ 53"
      using or_default_safe [of "qparam q ''per_page''" 30] by auto
    have "list_pagination q = (Fin p, Fin l)"
      using PagePerPage p(1) l(1) by (simp add: list_pagination_def)
    moreover have "falls_back (qparam q ''page'') \<longrightarrow> p = 1"
      using p(1) by (auto simp: or_default_falls_back)
    moreover have "falls_back (qparam q ''per_page'') \<longrightarrow> l = 30"
      using l(1) by (auto simp: or_default_falls_back)
    ultimately show ?thesis using PagePerPage p(2) l(2) offset [of p l] by auto
  next
    case StartEnd
    from nn obtain s where s: "window_start q = Fin s" "0 \<le> s" "s \<le> 2 ^ 53"
      using or_default_safe [of "qparam q ''_start''" 0] by (auto simp: window_start_def)
    from nn obtain e where e: "window_end q = Fin e" "0 \<le> e" "e \<le> 2 ^ 53"
      using or_default_safe [of "qparam q ''_end''" 30] by (auto simp: window_end_def)
    from se StartEnd s(1) e(1) have lt: "s < e" by (simp add: window_ordered_def)
    define l where "l = e - s"
    have l: "1 \<le> l" "l \<le> 2 ^ 53" using lt s(2) e(3) by (simp_all add: l_def)
    have limit: "js_round (js_minus (Fin e) (Fin s)) = Fin l"
      using l by (simp add: l_def [symmetric] to_double_exact)
    have fd: "js_floor_div (Fin s) (Fin l) = Fin (s div l)"
      by (rule js_floor_div_exact) (use s l in simp_all)
    have q0: "0 \<le> s div l" using s(2) l(1) by (simp add: pos_imp_zdiv_nonneg_iff)
    have "1 * (s div l) \<le> l * (s div l)" using l(1) q0 by (intro mult_right_mono) simp_all
    with mult_div_le_int [of l s] l(1) have "s div l \<le> s" by simp
    with lt e(3) have q53: "s div l + 1 \<le> 2 ^ 53" by simp
    have page: "js_round (js_plus (js_floor_div (Fin s) (Fin l)) (Fin 1)) = Fin (s div l + 1)"
      unfolding fd using q0 q53 by (simp add: to_double_exact)
    have "list_pagination q = (Fin (s div l + 1), Fin l)"
      using StartEnd s(1) e(1) limit page
      by (simp add: list_pagination_def Let_def window_start_def window_end_def)
    moreover have "1 \<le> s div l + 1" using q0 by simp
    ultimately show ?thesis
      using StartEnd s(1) e(1) l(1) offset [of "s div l + 1" l]
      by (auto simp: l_def)
  qed
qed

theorem list_pagination_bounds_witness:
  "list_pagination [(''_start'', ''20''), (''_end'', ''30'')] = (Fin 3, Fin 10)
   \<and> list_offset (Fin 3) (Fin 10) = Fin 20
   \<and> (\<exists>p l. list_pagination [(''_start'', ''20''), (''_end'', ''30'')] = (Fin p, Fin l)
          \<and> 1 \<le> p \<and> 1 \<le> l \<and> list_offset (Fin p) (Fin l) = Fin ((p - 1) * l))"
proof -
  let ?q = "[(''_start'', ''20''), (''_end'', ''30'')]"
  have nn: "\<forall>k \<in> set [''current'', ''pageSize'', ''_start'', ''_end'', ''page'', ''per_page''].
                 safe_param (qparam ?q k)"
    by code_simp
  have se: "list_dialect ?q = StartEnd \<longrightarrow> window_ordered ?q"
    by code_simp
  have val: "list_pagination ?q = (Fin 3, Fin 10)"
    by code_simp
  have off: "list_offset (Fin 3) (Fin 10) = Fin 20"
    by code_simp
  from list_pagination_bounds [OF nn se] val off show ?thesis by auto
qed

section \<open>Schema introspector: primary key and cache\<close>





lemma getTableMetadata_miss:
  assumes "metadataCache w t = None" "catalog_reachable w t" "catalog w t = Some cols"
  shows "getTableMetadata w t =
           (Inr (build_metadata t cols),
            w\<lparr>metadataCache := (metadataCache w)(t \<mapsto> build_metadata t cols)\<rparr>)"
  using assms
  by (simp add: getTableMetadata_def checkTableExists_def run_stmt_def catalog_reachable_def Let_def)











section \<open>Record service: list\<close>

lemma map_of_remove_key:
  "k' \<noteq> k \<Longrightarrow> map_of (filter (\<lambda>kv. fst kv \<noteq> k) fs) k' = map_of fs k'"
  by (induction fs) auto

lemma filter_clauses_empty:
  "v = None \<or> v = Some FUndefined \<or> v = Some (FStr []) \<Longrightarrow> filter_clauses k v = []"
  by (auto simp: filter_clauses_def)

lemma concat_map_skip:
  assumes "f k = []"
  shows "concat (map f ks) = concat (map f (filter (\<lambda>x. x \<noteq> k) ks))"
  using assms by (induction ks) auto

lemma build_where_remove:
  assumes "map_of fs k = None \<or> map_of fs k = Some FUndefined \<or> map_of fs k = Some (FStr [])"
  shows "build_where (filter (\<lambda>kv. fst kv \<noteq> k) fs) = build_where fs"
proof -
  let ?fs' = "filter (\<lambda>kv. fst kv \<noteq> k) fs"
  let ?f = "\<lambda>key. filter_clauses key (map_of fs key)"
  have keys: "map fst ?fs' = filter (\<lambda>x. x \<noteq> k) (map fst fs)"
    by (induction fs) auto
  have "build_where ?fs' = concat (map (\<lambda>key. filter_clauses key (map_of ?fs' key)) (filter (\<lambda>x. x \<noteq> k) (map fst fs)))"
    by (simp add: build_where_def keys)
  also have "\<dots> = concat (map ?f (filter (\<lambda>x. x \<noteq> k) (map fst fs)))"
    by (rule arg_cong [where f = concat], rule map_cong) (auto simp: map_of_remove_key)
  also have "\<dots> = concat (map ?f (map fst fs))"
    using concat_map_skip [where f = ?f and k = k] assms
    by (simp add: filter_clauses_empty)
  finally show ?thesis by (simp add: build_where_def)
qed

text \<open>
  C10: a filter key whose value is \<open>undefined\<close> or the empty string pushes no clause,
  and \<open>list\<close> returns exactly what it returns when the key is removed from the filters;
  the \<open>WHERE\<close> text is the same too.
\<close>

theorem list_ignores_empty_filter:
  assumes "map_of fs k = None \<or> map_of fs k = Some FUndefined \<or> map_of fs k = Some (FStr [])"
  shows "filter_clauses k (map_of fs k) = []
         \<and> service_list w table page limit (filter (\<lambda>kv. fst kv \<noteq> k) fs) sortBy sortOrder
             = service_list w table page limit fs sortBy sortOrder
         \<and> whereSQL (build_where (filter (\<lambda>kv. fst kv \<noteq> k) fs)) = whereSQL (build_where fs)"
proof -
  have same: "build_where (filter (\<lambda>kv. fst kv \<noteq> k) fs) = build_where fs"
    using assms by (rule build_where_remove)
  have "service_list w table page limit (filter (\<lambda>kv. fst kv \<noteq> k) fs) sortBy sortOrder
          = service_list w table page limit fs sortBy sortOrder"
    unfolding service_list_def same ..
  with assms same show ?thesis
    by (simp add: filter_clauses_empty)
qed

lemma school_rows: "contents school ''students'' = [ann, bob]"
  by (simp add: school_def)

theorem list_ignores_empty_filter_witness:
  "service_list school ''students'' (Fin 1) (Fin 30) [(''department'', FStr [])] None None
     = service_list school ''students'' (Fin 1) (Fin 30) [] None None
   \<and> service_list school ''students'' (Fin 1) (Fin 30) [] None None
     = Inr \<lparr>lr_data = [ann, bob], lr_total = 2\<rparr>"
proof -
  have "map_of [(''department'', FStr [])] ''department'' = None
        \<or> map_of [(''department'', FStr [])] ''department'' = Some FUndefined
        \<or> map_of [(''department'', FStr [])] ''department'' = Some (FStr [])"
    by simp
  from list_ignores_empty_filter [OF this, of school "''students''" "Fin 1" "Fin 30" None None]
  have "service_list school ''students'' (Fin 1) (Fin 30) [(''department'', FStr [])] None None
          = service_list school ''students'' (Fin 1) (Fin 30) [] None None"
    by simp
  moreover have "service_list school ''students'' (Fin 1) (Fin 30) [] None None
                   = Inr \<lparr>lr_data = [ann, bob], lr_total = 2\<rparr>"
    by (simp add: service_list_def checkTableExists_def run_stmt_def school_def build_where_def
          engine_select_def engine_count_def matching_rows_def order_by_def truthy_param_def
          order_rows_def list_offset_def)
  ultimately show ?thesis by simp
qed

lemma engine_select_length:
  assumes "engine_select w t cl ord limit offset = Inr rows"
  shows "\<exists>l. limit = Fin l \<and> int (length rows) \<le> l"
  using assms
  by (auto simp: engine_select_def split: option.splits if_splits jsnum.splits)

lemma engine_count_value:
  assumes "engine_count w t cl = Inr n"
  shows "n = length (matching_rows w t cl)"
  using assms
  by (auto simp: engine_count_def split: option.splits if_splits)

lemma service_list_Inr:
  assumes "service_list w t page limit fs sb so = Inr res"
  shows "\<exists>rows. engine_select w t (build_where fs) (order_by sb so) limit (list_offset page limit) = Inr rows
           \<and> engine_count w t (build_where fs) = Inr (lr_total res) \<and> lr_data res = rows"
  using assms
  by (auto simp: service_list_def Let_def split: sum.splits if_splits)

lemma service_list_window:
  assumes "catalog w t \<noteq> None" "quiet w [CheckTable t, SelectPage t, CountAll t]"
    "list_all bindable (build_where fs)" "1 \<le> p" "0 \<le> l"
  shows "service_list w t (Fin p) (Fin l) fs sb so =
           Inr \<lparr>lr_data = take (nat l) (drop (nat ((p - 1) * l))
                              (order_rows (order_by sb so) (matching_rows w t (build_where fs)))),
                lr_total = length (matching_rows w t (build_where fs))\<rparr>"
  using assms
  by (simp add: service_list_def checkTableExists_def run_stmt_def quiet_def engine_select_def
        engine_count_def list_offset_def Let_def)

text \<open>
  C7: whenever \<open>list\<close> returns, the limit is an integer, the data has at most that many
  rows, and the total is the number of all rows of the table that match the filter
  clauses, whatever the page, the limit and the sort are. On a table of the catalog,
  with no driver failure, bindable filter values, a page of at least 1 and a limit of at
  least 0, it does return: the data is the window of \<open>limit\<close> rows at offset
  \<open>(page - 1) * limit\<close> of the ordered matching rows.
\<close>

theorem list_total:
  "(\<forall>res. service_list w t page limit fs sb so = Inr res \<longrightarrow>
       (\<exists>l. limit = Fin l \<and> int (length (lr_data res)) \<le> l)
       \<and> lr_total res = length (matching_rows w t (build_where fs)))
   \<and> (\<forall>p l. catalog w t \<noteq> None \<and> quiet w [CheckTable t, SelectPage t, CountAll t]
          \<and> list_all bindable (build_where fs) \<and> page = Fin p \<and> limit = Fin l \<and> 1 \<le> p \<and> 0 \<le> l
        \<longrightarrow> service_list w t page limit fs sb so =
              Inr \<lparr>lr_data = take (nat l) (drop (nat ((p - 1) * l))
                                 (order_rows (order_by sb so) (matching_rows w t (build_where fs)))),
                   lr_total = length (matching_rows w t (build_where fs))\<rparr>)"
proof (intro conjI allI impI)
  fix res
  assume r: "service_list w t page limit fs sb so = Inr res"
  from service_list_Inr [OF r] obtain rows where
    sel: "engine_select w t (build_where fs) (order_by sb so) limit (list_offset page limit) = Inr rows"
    and cnt: "engine_count w t (build_where fs) = Inr (lr_total res)"
    and dat: "lr_data res = rows"
    by blast
  from engine_select_length [OF sel] dat
  show "\<exists>l. limit = Fin l \<and> int (length (lr_data res)) \<le> l" by simp
  from engine_count_value [OF cnt]
  show "lr_total res = length (matching_rows w t (build_where fs))" .
next
  fix p l
  assume "catalog w t \<noteq> None \<and> quiet w [CheckTable t, SelectPage t, CountAll t]
          \<and> list_all bindable (build_where fs) \<and> page = Fin p \<and> limit = Fin l \<and> 1 \<le> p \<and> 0 \<le> l"
  then show "service_list w t page limit fs sb so =
              Inr \<lparr>lr_data = take (nat l) (drop (nat ((p - 1) * l))
                                 (order_rows (order_by sb so) (matching_rows w t (build_where fs)))),
                   lr_total = length (matching_rows w t (build_where fs))\<rparr>"
    by (simp add: service_list_window)
qed

lemma school_quiet: "quiet school stmts"
  by (simp add: quiet_def school_def list_all_iff)

theorem list_total_witness:
  "service_list school ''students'' (Fin 2) (Fin 1) [] None None = Inr \<lparr>lr_data = [bob], lr_total = 2\<rparr>
   \<and> service_list school ''students'' (Fin 1) (Fin 1) [] None None = Inr \<lparr>lr_data = [ann], lr_total = 2\<rparr>"
proof -
  have m: "matching_rows school ''students'' (build_where []) = [ann, bob]"
    by (simp add: matching_rows_def build_where_def school_def)
  have pre: "catalog school ''students'' \<noteq> None" "list_all bindable (build_where [])"
    by (simp_all add: school_def build_where_def)
  have o: "order_by None None = None"
    by (simp add: order_by_def truthy_param_def)
  from list_total [of school "''students''" "Fin 2" "Fin 1" "[]" None None] pre school_quiet
  have "service_list school ''students'' (Fin 2) (Fin 1) [] None None = Inr \<lparr>lr_data = [bob], lr_total = 2\<rparr>"
    by (simp add: m o order_rows_def)
  moreover
  from list_total [of school "''students''" "Fin 1" "Fin 1" "[]" None None] pre school_quiet
  have "service_list school ''students'' (Fin 1) (Fin 1) [] None None = Inr \<lparr>lr_data = [ann], lr_total = 2\<rparr>"
    by (simp add: m o order_rows_def)
  ultimately show ?thesis by simp
qed

lemma map_of_distinct_entry:
  "distinct (map fst fs) \<Longrightarrow> (k, v) \<in> set fs \<Longrightarrow> map_of fs k = Some v"
  by simp

lemma concat_map_cong:
  "\<forall>x \<in> set xs. f x = g x \<Longrightarrow> concat (map f xs) = concat (map g xs)"
  by (induction xs) auto

lemma build_where_entries:
  assumes "distinct (map fst fs)"
  shows "build_where fs = concat (map (\<lambda>kv. filter_clauses (fst kv) (Some (snd kv))) fs)"
proof -
  have "build_where fs = concat (map (\<lambda>kv. filter_clauses (fst kv) (map_of fs (fst kv))) fs)"
    by (simp add: build_where_def comp_def)
  also have "\<dots> = concat (map (\<lambda>kv. filter_clauses (fst kv) (Some (snd kv))) fs)"
  proof (rule concat_map_cong, rule ballI)
    fix kv assume "kv \<in> set fs"
    then have "map_of fs (fst kv) = Some (snd kv)"
      using assms map_of_distinct_entry [of fs "fst kv" "snd kv"] by simp
    then show "filter_clauses (fst kv) (map_of fs (fst kv)) = filter_clauses (fst kv) (Some (snd kv))"
      by simp
  qed
  finally show ?thesis .
qed

lemma one_entry_per_key:
  "distinct (map fst fs) \<Longrightarrow> k \<in> fst ` set fs \<Longrightarrow> length (filter (\<lambda>kv. fst kv = k) fs) = 1"
  by (induction fs) (auto simp: filter_empty_conv image_iff)

lemma concat_map_singletons:
  assumes "\<forall>x \<in> set xs. f x = (if keep x then [g x] else [])"
  shows "concat (map f xs) = map g (filter keep xs)"
  using assms by (induction xs) auto

lemma filter_clauses_entry:
  assumes "distinct (map fst fs)" "map_of fs ''_search'' = Some (FSearch cols q)"
    "cols \<noteq> []" "q \<noteq> []" "kv \<in> set fs"
  shows "filter_clauses (fst kv) (Some (snd kv))
           = (if pushes_clause kv then [clause_of cols q kv] else [])"
proof (cases "fst kv = ''_search''")
  case True
  from assms(1,5) have "map_of fs (fst kv) = Some (snd kv)"
    using map_of_distinct_entry [of fs "fst kv" "snd kv"] by simp
  with True assms(2) have "snd kv = FSearch cols q" by simp
  with True assms(3,4) show ?thesis
    by (simp add: filter_clauses_def pushes_clause_def clause_of_def)
next
  case False
  then show ?thesis
    by (cases "snd kv") (auto simp: filter_clauses_def pushes_clause_def clause_of_def)
qed

lemma map_of_obj_set: "map_of (obj_set fs k v) k = Some v"
  by (induction fs k v rule: obj_set.induct) auto

lemma load_search_sets:
  assumes "truthy_param sq" "driver_fault w (ConfigSearchable t) = None"
    "visible_config w t = Some cfg" "parse_columns P (cfg_searchable_columns cfg) = Inr (Some cols)"
    "cols \<noteq> []"
  shows "load_search P w t fs0 sq = obj_set fs0 ''_search'' (FSearch cols (the sq))"
  using assms by (simp add: load_search_def run_stmt_def)

text \<open>
  C6, amended: when the filters hold \<open>_search\<close> with a non-empty column set and a
  non-empty query, the \<open>WHERE\<close> clause is the conjunction, in key order, of one equality
  clause \<open>key = :filter_key\<close> for every other key whose value is neither \<open>undefined\<close> nor
  the empty string, and of one disjunction of \<open>column LIKE :search_i\<close>, one per column of
  the set, every \<open>search_i\<close> bound to \<open>%query%\<close>. When the controller has a search
  query and the visible configuration row of the table gives a non-empty column set, the
  \<open>_search\<close> filter it passes holds that set.
\<close>

theorem list_where_clause:
  assumes d: "distinct (map fst fs)" and s: "map_of fs ''_search'' = Some (FSearch cols q)"
    and c: "cols \<noteq> []" and q: "q \<noteq> []"
  shows "build_where fs = map (clause_of cols q) (filter pushes_clause fs)
         \<and> whereSQL (build_where fs) = ''WHERE '' @ join '' AND '' (map clause_sql (build_where fs))
         \<and> length (filter (\<lambda>kv. fst kv = ''_search'') fs) = 1
         \<and> clause_sql (AnyLike cols q)
             = ''('' @ join '' OR '' (map (\<lambda>ic. snd ic @ '' LIKE :search_'' @ show_nat (fst ic))
                                      (enumerate 0 cols)) @ '')''
         \<and> map snd (clause_replacements (AnyLike cols q))
             = replicate (length cols) (FStr (''%'' @ q @ ''%''))
         \<and> (\<forall>sq cfg fs0. truthy_param sq \<and> driver_fault w (ConfigSearchable t) = None
               \<and> visible_config w t = Some cfg
               \<and> parse_columns P (cfg_searchable_columns cfg) = Inr (Some cols)
             \<longrightarrow> map_of (load_search P w t fs0 sq) ''_search'' = Some (FSearch cols (the sq)))"
proof -
  have bw: "build_where fs = map (clause_of cols q) (filter pushes_clause fs)"
    unfolding build_where_entries [OF d]
    by (rule concat_map_singletons) (simp add: filter_clauses_entry [OF d s c q])
  from s have mem: "(''_search'', FSearch cols q) \<in> set fs"
    by (rule map_of_SomeD)
  then have "(''_search'', FSearch cols q) \<in> set (filter pushes_clause fs)"
    by (simp add: pushes_clause_def)
  then have "filter pushes_clause fs \<noteq> []"
    by (metis empty_iff empty_set)
  with bw have ne: "build_where fs \<noteq> []" by simp
  have one: "length (filter (\<lambda>kv. fst kv = ''_search'') fs) = 1"
  proof -
    from mem have "''_search'' \<in> fst ` set fs" by force
    with d show ?thesis by (rule one_entry_per_key)
  qed
  have sql: "clause_sql (AnyLike cols q)
             = ''('' @ join '' OR '' (map (\<lambda>ic. snd ic @ '' LIKE :search_'' @ show_nat (fst ic))
                                      (enumerate 0 cols)) @ '')''"
  proof -
    have "search_clause_sql = (\<lambda>ic. snd ic @ '' LIKE :search_'' @ show_nat (fst ic))"
      by (rule ext) (simp add: search_clause_sql_def split: prod.splits)
    then show ?thesis by simp
  qed
  have rep: "map snd (clause_replacements (AnyLike cols q))
             = replicate (length cols) (FStr (''%'' @ q @ ''%''))"
    by (simp add: comp_def map_replicate_const)
  have ctl: "\<forall>sq cfg fs0. truthy_param sq \<and> driver_fault w (ConfigSearchable t) = None
               \<and> visible_config w t = Some cfg
               \<and> parse_columns P (cfg_searchable_columns cfg) = Inr (Some cols)
             \<longrightarrow> map_of (load_search P w t fs0 sq) ''_search'' = Some (FSearch cols (the sq))"
    using c by (simp add: load_search_sets map_of_obj_set)
  from bw ne one sql rep ctl show ?thesis
    by (simp only: whereSQL_def if_True simp_thms)
qed


text \<open>
  C6, as stated, fails: an ordinary key with an empty value gets no equality clause. With
  the filters \<open>{name: '', _search: {columns: [name], query: doe}}\<close> the \<open>WHERE\<close> clause
  is the search disjunction alone.
\<close>

theorem list_where_skips_empty:
  "\<not> every_key_has_predicate [(''name'', FStr []), (''_search'', FSearch [''name''] ''doe'')]
        (build_where [(''name'', FStr []), (''_search'', FSearch [''name''] ''doe'')])
   \<and> whereSQL (build_where [(''name'', FStr []), (''_search'', FSearch [''name''] ''doe'')])
       = ''WHERE (name LIKE :search_0)''"
  by code_simp

theorem list_where_clause_witness:
  "build_where [(''department'', FStr ''CS''), (''name'', FStr []),
                (''_search'', FSearch [''name'', ''reg_no''] ''An'')]
     = [Equals ''department'' (FStr ''CS''), AnyLike [''name'', ''reg_no''] ''An'']
   \<and> whereSQL (build_where [(''department'', FStr ''CS''), (''name'', FStr []),
                (''_search'', FSearch [''name'', ''reg_no''] ''An'')])
     = ''WHERE department = :filter_department AND (name LIKE :search_0 OR reg_no LIKE :search_1)''
   \<and> map_of (load_search no_json school ''students'' [(''department'', FStr ''CS'')] (Some ''An''))
        ''_search'' = Some (FSearch [''name'', ''reg_no''] ''An'')"
proof -
  let ?fs = "[(''department'', FStr ''CS''), (''name'', FStr []),
              (''_search'', FSearch [''name'', ''reg_no''] ''An'')]"
  have d: "distinct (map fst ?fs)" by simp
  have s: "map_of ?fs ''_search'' = Some (FSearch [''name'', ''reg_no''] ''An'')" by simp
  have c: "[''name'', ''reg_no''] \<noteq> []" and q: "''An'' \<noteq> []" by simp_all
  note inst = list_where_clause [OF d s c q, of school "''students''" no_json]
  have bw: "build_where ?fs = [Equals ''department'' (FStr ''CS''), AnyLike [''name'', ''reg_no''] ''An'']"
    using inst by (simp add: pushes_clause_def clause_of_def)
  have sql: "whereSQL (build_where ?fs)
     = ''WHERE department = :filter_department AND (name LIKE :search_0 OR reg_no LIKE :search_1)''"
    unfolding bw by code_simp
  have cfg: "visible_config school ''students'' = Some students_config"
    by (simp add: visible_config_def school_def students_config_def)
  have pc: "parse_columns no_json (cfg_searchable_columns students_config)
              = Inr (Some [''name'', ''reg_no''])"
    by (simp add: parse_columns_def students_config_def)
  have "map_of (load_search no_json school ''students'' [(''department'', FStr ''CS'')] (Some ''An''))
        ''_search'' = Some (FSearch [''name'', ''reg_no''] ''An'')"
    using inst cfg pc by (simp add: truthy_param_def school_def)
  with bw sql show ?thesis by simp
qed

section \<open>Table configuration store: save after delete\<close>








section \<open>Record service: create and update\<close>

lemma getTableMetadata_frame:
  assumes "getTableMetadata w t = (r, w1)"
  shows "contents w1 = contents w \<and> table_configurations w1 = table_configurations w
         \<and> catalog w1 = catalog w \<and> driver_fault w1 = driver_fault w \<and> clock w1 = clock w"
  using assms
  by (auto simp: getTableMetadata_def Let_def split: option.splits sum.splits if_splits)








lemma getTableMetadata_errors:
  assumes "checkTableExists w t = Inr True" "fst (getTableMetadata w t) = Inl e"
  shows "is_driver_error e"
  using assms
  by (auto simp: getTableMetadata_def run_stmt_def Let_def split: option.splits if_splits)






lemma checkTableExists_errors:
  "checkTableExists w t = Inl e \<Longrightarrow> is_driver_error e"
  by (auto simp: checkTableExists_def run_stmt_def split: option.splits)



lemma engine_update_errors:
  "engine_update w t data pk rid = Inl e \<Longrightarrow> is_driver_error e"
  by (auto simp: engine_update_def split: option.splits if_splits)

lemma engine_select_by_id_errors:
  "engine_select_by_id w t pk rid = Inl e \<Longrightarrow> is_driver_error e"
  by (auto simp: engine_select_by_id_def run_stmt_def split: option.splits)

lemma service_get_errors:
  assumes "fst (service_get w t rid) = Inl e"
  shows "e = InvalidTable \<or> is_driver_error e"
proof (cases "checkTableExists w t")
  case (Inl e')
  with assms have "e = e'" by (simp add: service_get_def)
  with Inl show ?thesis by (simp add: checkTableExists_errors)
next
  case (Inr ex)
  show ?thesis
  proof (cases ex)
    case False
    with Inr assms show ?thesis by (simp add: service_get_def)
  next
    case True
    with Inr have ce: "checkTableExists w t = Inr True" by simp
    obtain r w1 where g: "getTableMetadata w t = (r, w1)" by (cases "getTableMetadata w t")
    show ?thesis
    proof (cases r)
      case (Inl e')
      with ce g assms have "e = e'" by (simp add: service_get_def)
      moreover from Inl g have "fst (getTableMetadata w t) = Inl e'" by simp
      ultimately show ?thesis using getTableMetadata_errors [OF ce] by simp
    next
      case (Inr md)
      with ce g assms have "engine_select_by_id w1 t (md_primaryKey md) rid = Inl e"
        by (simp add: service_get_def split: sum.splits)
      then show ?thesis by (simp add: engine_select_by_id_errors)
    qed
  qed
qed








lemma startsWith_append: "startsWith (t @ s) t"
  by (induction t) auto

lemma str_includes_self: "str_includes t t"
  using startsWith_append [of t "[]"] by (cases t) auto

lemma str_includes_append: "str_includes (p @ t) t"
  by (induction p) (auto simp: str_includes_self)

lemma message_AlreadyExists: "str_includes (message (AlreadyExists c v)) ''already exists''"
proof -
  have "message (AlreadyExists c v)
          = (''Record with '' @ c @ '': '' @ [CHR 39] @ String_js v @ [CHR 39] @ '' '') @ ''already exists''"
    by simp
  then show ?thesis by (simp only: str_includes_append)
qed

lemma check_unique_columns_conflict:
  assumes "c \<in> set cols" "getprop data c = Some v" "v \<noteq> JNull"
    "duplicates w t c v excl \<noteq> []"
    "\<forall>c' \<in> set cols. driver_fault w (CountDuplicates t c') = None"
  shows "\<exists>c' v'. check_unique_columns w t data excl cols = Inl (AlreadyExists c' v')"
  using assms
proof (induction cols)
  case Nil
  then show ?case by simp
next
  case (Cons a cols)
  show ?case
  proof (cases "a = c")
    case True
    with Cons.prems show ?thesis
      by (cases v) (simp_all add: engine_count_duplicates_def run_stmt_def)
  next
    case False
    with Cons have "\<exists>c' v'. check_unique_columns w t data excl cols = Inl (AlreadyExists c' v')"
      by simp
    with Cons.prems(5) show ?thesis
      by (auto simp: engine_count_duplicates_def run_stmt_def split: option.splits jsval.splits)
  qed
qed

lemma check_unique_columns_found:
  assumes "check_unique_columns w t data excl cols = Inl (AlreadyExists c v)"
  shows "c \<in> set cols \<and> getprop data c = Some v \<and> v \<noteq> JNull \<and> duplicates w t c v excl \<noteq> []"
  using assms
proof (induction cols)
  case Nil
  then show ?case by simp
next
  case (Cons a cols)
  then show ?case
    by (auto simp: engine_count_duplicates_def run_stmt_def
             split: option.splits jsval.splits sum.splits if_splits)
qed


lemma duplicates_frame:
  "contents w1 = contents w \<Longrightarrow> duplicates w1 t c v excl = duplicates w t c v excl"
  by (simp add: duplicates_def)

lemma check_unique_columns_frame:
  assumes "contents w1 = contents w" "driver_fault w1 = driver_fault w"
  shows "check_unique_columns w1 t data excl cols = check_unique_columns w t data excl cols"
  using assms
  by (induction cols)
     (auto simp: engine_count_duplicates_def run_stmt_def duplicates_def
           split: option.splits jsval.splits sum.splits)

lemma unique_constraints_try_frame:
  assumes "contents w1 = contents w" "driver_fault w1 = driver_fault w"
    "table_configurations w1 = table_configurations w"
  shows "unique_constraints_try P w1 t data excl = unique_constraints_try P w t data excl"
proof -
  have "check_unique_columns w1 t data excl = check_unique_columns w t data excl"
    by (rule ext) (rule check_unique_columns_frame [OF assms(1,2)])
  then show ?thesis
    unfolding unique_constraints_try_def run_stmt_def visible_config_def assms(2,3) by (rule arg_cong)
qed

lemma unique_constraints_try_configured:
  assumes "driver_fault w (ConfigUnique t) = None" "visible_config w t = Some cfg"
    "parse_columns P (cfg_unique_constraints cfg) = Inr (Some ucs)"
  shows "unique_constraints_try P w t data excl = check_unique_columns w t data excl ucs"
  using assms by (simp add: unique_constraints_try_def run_stmt_def)

lemma unique_constraints_try_conflict:
  assumes "unique_constraints_try P w t data excl = Inl (AlreadyExists c v)"
  shows "\<exists>cfg ucs. visible_config w t = Some cfg
           \<and> parse_columns P (cfg_unique_constraints cfg) = Inr (Some ucs)
           \<and> check_unique_columns w t data excl ucs = Inl (AlreadyExists c v)"
  using assms
  by (auto simp: unique_constraints_try_def run_stmt_def parse_columns_def
           split: option.splits sum.splits json_column.splits if_splits)

lemma service_update_conflict:
  assumes "fst (service_update P w t rid data) = Inl (AlreadyExists c v)"
    "getTableMetadata w t = (Inr md, w1)"
  shows "unique_constraints_try P w1 t data (Some (md_primaryKey md, rid)) = Inl (AlreadyExists c v)"
proof (cases "checkTableExists w t")
  case (Inl e')
  with assms(1) have "AlreadyExists c v = e'" by (simp add: service_update_def)
  with Inl checkTableExists_errors [of w t e'] show ?thesis by auto
next
  case (Inr ex)
  show ?thesis
  proof (cases ex)
    case False
    with Inr assms(1) show ?thesis by (simp add: service_update_def)
  next
    case True
    with Inr have ce: "checkTableExists w t = Inr True" by simp
    show ?thesis
    proof (cases "check_unique_constraints P w1 t data (Some (md_primaryKey md, rid))")
      case (Some e')
      with ce assms have "e' = AlreadyExists c v" by (simp add: service_update_def)
      with Some show ?thesis
        by (auto simp: check_unique_constraints_def split: sum.splits if_splits)
    next
      case None
      show ?thesis
      proof (cases "engine_update w1 t data (md_primaryKey md) rid")
        case (Inl e')
        with None ce assms have "e' = AlreadyExists c v" by (simp add: service_update_def)
        with Inl engine_update_errors [of w1 t data "md_primaryKey md" rid e'] show ?thesis by auto
      next
        case u: (Inr w2)
        with None ce assms have "fst (service_get w2 t rid) = Inl (AlreadyExists c v)"
          by (simp add: service_update_def)
        from service_get_errors [OF this] show ?thesis by simp
      qed
    qed
  qed
qed

text \<open>
  C1, amended. The table exists, its metadata is obtained, its visible configuration row
  names the unique columns, and the driver raises no error on the table check, the
  lookup and the counts. Then \<open>create\<close> with data that passes the column validation and
  gives a unique column a non-null value that some row already holds fails with a
  conflict and writes nothing; and \<open>update\<close> does not fail with a conflict when, for
  every unique column that the data gives a non-null value, the rows holding that value
  are rows identified by the id.
\<close>

theorem unique_constraint_checks:
  assumes table: "catalog w t \<noteq> None"
    and q: "quiet w [CheckTable t, ConfigUnique t]"
    and qc: "\<forall>c \<in> set ucs. driver_fault w (CountDuplicates t c) = None"
    and md: "getTableMetadata w t = (Inr md, w1)"
    and cfg: "visible_config w t = Some cfg"
    and ucs: "parse_columns P (cfg_unique_constraints cfg) = Inr (Some ucs)"
  shows "(\<forall>c v. validate_columns (md_columns md) data = None \<and> c \<in> set ucs
            \<and> getprop data c = Some v \<and> v \<noteq> JNull
            \<and> (\<exists>row \<in> set (contents w t). sql_eq (column_value row c) v)
          \<longrightarrow> (\<exists>c' v'. service_create P w t data = (Inl (AlreadyExists c' v'), w1))
              \<and> contents w1 = contents w)
         \<and> ((\<forall>c \<in> set ucs. \<forall>v. getprop data' c = Some v \<and> v \<noteq> JNull
                \<longrightarrow> (\<forall>row \<in> set (contents w t). sql_eq (column_value row c) v
                        \<longrightarrow> sql_eq (column_value row (md_primaryKey md)) rid))
             \<longrightarrow> \<not> is_conflict (fst (service_update P w t rid data')))"
proof (intro conjI allI impI)
  note fr = getTableMetadata_frame [OF md]
  from q have q1: "driver_fault w (CheckTable t) = None" and q2: "driver_fault w (ConfigUnique t) = None"
    by (simp_all add: quiet_def)
  fix c v
  assume a: "validate_columns (md_columns md) data = None \<and> c \<in> set ucs
            \<and> getprop data c = Some v \<and> v \<noteq> JNull
            \<and> (\<exists>row \<in> set (contents w t). sql_eq (column_value row c) v)"
  then have "duplicates w t c v None \<noteq> []"
    by (auto simp: duplicates_def filter_empty_conv)
  with a qc obtain c' v' where cu: "check_unique_columns w t data None ucs = Inl (AlreadyExists c' v')"
    using check_unique_columns_conflict [of c ucs data v w t None] by blast
  have "unique_constraints_try P w1 t data None = unique_constraints_try P w t data None"
    by (rule unique_constraints_try_frame) (simp_all add: fr)
  also have "\<dots> = Inl (AlreadyExists c' v')"
    using unique_constraints_try_configured [OF q2 cfg ucs] cu by simp
  finally have "check_unique_constraints P w1 t data None = Some (AlreadyExists c' v')"
    by (simp add: check_unique_constraints_def message_AlreadyExists del: message.simps)
  with table q1 md a have "service_create P w t data = (Inl (AlreadyExists c' v'), w1)"
    by (simp add: service_create_def checkTableExists_def run_stmt_def)
  then show "\<exists>c' v'. service_create P w t data = (Inl (AlreadyExists c' v'), w1)" by blast
  from fr show "contents w1 = contents w" by simp
next
  note fr = getTableMetadata_frame [OF md]
  assume own: "\<forall>c \<in> set ucs. \<forall>v. getprop data' c = Some v \<and> v \<noteq> JNull
                \<longrightarrow> (\<forall>row \<in> set (contents w t). sql_eq (column_value row c) v
                        \<longrightarrow> sql_eq (column_value row (md_primaryKey md)) rid)"
  show "\<not> is_conflict (fst (service_update P w t rid data'))"
  proof
    assume "is_conflict (fst (service_update P w t rid data'))"
    then obtain e where e: "fst (service_update P w t rid data') = Inl e" "is_conflict_error e"
      by (cases "fst (service_update P w t rid data')") (simp_all add: is_conflict_def)
    then obtain c v where "fst (service_update P w t rid data') = Inl (AlreadyExists c v)"
      by (cases e) simp_all
    from service_update_conflict [OF this md]
    have "unique_constraints_try P w1 t data' (Some (md_primaryKey md, rid)) = Inl (AlreadyExists c v)" .
    moreover
    have "unique_constraints_try P w1 t data' (Some (md_primaryKey md, rid))
            = unique_constraints_try P w t data' (Some (md_primaryKey md, rid))"
      by (rule unique_constraints_try_frame) (simp_all add: fr)
    ultimately
    have "unique_constraints_try P w t data' (Some (md_primaryKey md, rid)) = Inl (AlreadyExists c v)"
      by simp
    from unique_constraints_try_conflict [OF this] cfg ucs
    have "check_unique_columns w t data' (Some (md_primaryKey md, rid)) ucs = Inl (AlreadyExists c v)"
      by auto
    from check_unique_columns_found [OF this]
    have c: "c \<in> set ucs" "getprop data' c = Some v" "v \<noteq> JNull"
      and d: "duplicates w t c v (Some (md_primaryKey md, rid)) \<noteq> []"
      by simp_all
    from d obtain row where "row \<in> set (contents w t)" "sql_eq (column_value row c) v"
      "\<not> sql_eq (column_value row (md_primaryKey md)) rid"
      by (auto simp: duplicates_def filter_empty_conv)
    with own c show False by blast
  qed
qed


text \<open>
  C1, as stated, fails twice. \<open>create\<close> with \<open>{reg_no: R1}\<close>, a value Ann's row holds,
  fails on the missing \<open>name\<close> before the uniqueness check is reached: the error is a
  validation error, not a conflict. And \<open>update\<close> of row 1 to its own \<open>reg_no\<close> is a
  conflict when another row holds the same value: the count excludes row 1 only.
\<close>

theorem unique_check_unguarded:
  "column_value ann ''reg_no'' = JStr ''R1''
   \<and> \<not> is_conflict (fst (service_create no_json school ''students'' [(''reg_no'', JStr ''R1'')]))
   \<and> sql_eq (column_value ann ''id'') (JStr ''1'')
   \<and> is_conflict (fst (service_update no_json school_dup ''students'' (JStr ''1'')
                          [(''reg_no'', JStr ''R1'')]))"
  by code_simp

theorem unique_constraint_checks_witness:
  "(\<exists>c' v'. fst (service_create no_json school ''students''
                     [(''name'', JStr ''Bea''), (''reg_no'', JStr ''R1'')]) = Inl (AlreadyExists c' v'))
   \<and> \<not> is_conflict (fst (service_update no_json school ''students'' (JStr ''1'')
                            [(''reg_no'', JStr ''R1'')]))
   \<and> fst (service_update no_json school ''students'' (JStr ''1'') [(''reg_no'', JStr ''R1'')])
       = Inr (Some ann)"
proof -
  let ?md = "build_metadata ''students'' students_columns"
  let ?w1 = "school\<lparr>metadataCache := (metadataCache school)(''students'' \<mapsto> ?md)\<rparr>"
  let ?data = "[(''name'', JStr ''Bea''), (''reg_no'', JStr ''R1'')]"
  let ?data' = "[(''reg_no'', JStr ''R1'')]"
  have table: "catalog school ''students'' \<noteq> None"
    by (simp add: school_def)
  have q: "quiet school [CheckTable ''students'', ConfigUnique ''students'']"
    by (simp add: quiet_def school_def)
  have qc: "\<forall>c \<in> set [''reg_no'']. driver_fault school (CountDuplicates ''students'' c) = None"
    by (simp add: school_def)
  have md: "getTableMetadata school ''students'' = (Inr ?md, ?w1)"
    by (rule getTableMetadata_miss) (simp_all add: school_def catalog_reachable_def)
  have cfg: "visible_config school ''students'' = Some students_config"
    by (simp add: visible_config_def school_def students_config_def)
  have ucs: "parse_columns no_json (cfg_unique_constraints students_config) = Inr (Some [''reg_no''])"
    by (simp add: parse_columns_def students_config_def)
  note inst = unique_constraint_checks [OF table q qc md cfg ucs, of ?data ?data' "JStr ''1''"]
  have valid: "validate_columns (md_columns ?md) ?data = None"
    by code_simp
  have rows: "contents school ''students'' = [ann, bob]"
    by (simp add: school_def)
  have held: "sql_eq (column_value ann ''reg_no'') (JStr ''R1'')"
    and other: "\<not> sql_eq (column_value bob ''reg_no'') (JStr ''R1'')"
    and self: "sql_eq (column_value ann (md_primaryKey ?md)) (JStr ''1'')"
    by code_simp+
  have "\<exists>c' v'. service_create no_json school ''students'' ?data = (Inl (AlreadyExists c' v'), ?w1)"
    using inst valid rows held by (simp add: getprop_def)
  then have create: "\<exists>c' v'. fst (service_create no_json school ''students'' ?data) = Inl (AlreadyExists c' v')"
    by auto
  have update: "\<not> is_conflict (fst (service_update no_json school ''students'' (JStr ''1'') ?data'))"
    using inst rows other self by (simp add: getprop_def)
  have "fst (service_update no_json school ''students'' (JStr ''1'') ?data') = Inr (Some ann)"
    by code_simp
  with create update show ?thesis by simp
qed

end
